theory Spec2Isabelle
  imports Complex_Main "HOL-Library.Char_ord" "HOL-Library.List_Lexorder"
begin

section \<open>Data model of \<open>research_paths.py\<close>\<close>

text \<open>
  The six categories of the taxonomy are the first components of the values of
  \<open>NODE_CATEGORIES\<close>. A registry entry is the dict \<open>{'category': .., 'color': ..}\<close>.
  The node registry \<open>node_info\<close> is a Python dict: an association list in insertion
  order, read with \<open>map_of\<close>; a dict has distinct keys.
  A Python float is represented by the real number it denotes. Sums, products and roundings
  of floats are computed exactly, except in the section on the gap scorer in floating-point
  arithmetic, where they are left open.
\<close>

datatype category = Theory | Mechanism | Phenomenon | Method | Material | Application

record node_data =
  category :: category
  color :: string

type_synonym node_info = "(string \<times> node_data) list"

datatype error = KeyError | IndexError | FileNotFoundError | NodeNotFound | PowerIterationFailedConvergence

definition NODE_CATEGORIES :: "(string \<times> category \<times> string) list" where
  "NODE_CATEGORIES =
     [(''applications.md'', Application, ''#e41a1c''), (''materials.md'', Material, ''#377eb8''),
      (''mechanisms.md'', Mechanism, ''#4daf4a''), (''methods.md'', Method, ''#984ea3''),
      (''phenomena.md'', Phenomenon, ''#ff7f00''), (''theoretical.md'', Theory, ''#a65628'')]"

definition CATEGORY_ORDER :: "category list" where
  "CATEGORY_ORDER = [Theory, Mechanism, Phenomenon, Method, Material, Application]"

text \<open>\<open>xs.index(x)\<close>: the first position of \<open>x\<close>, \<open>None\<close> where Python raises ValueError.\<close>

fun list_index :: "'a list \<Rightarrow> 'a \<Rightarrow> nat option" where
  "list_index [] x = None"
| "list_index (y # ys) x = (if y = x then Some 0 else map_option Suc (list_index ys x))"

text \<open>\<open>itertools.combinations(xs, 2)\<close>.\<close>

fun combinations2 :: "'a list \<Rightarrow> ('a \<times> 'a) list" where
  "combinations2 [] = []"
| "combinations2 (x # xs) = map (Pair x) xs @ combinations2 xs"

subsection \<open>The directed link graph (\<open>nx.DiGraph\<close>)\<close>

text \<open>
  Nodes and edges are kept in insertion order, as networkx keeps them; the node
  attributes written by \<open>add_node(node, **data)\<close> and by \<open>set_node_attributes\<close> are maps
  keyed by node id.
\<close>

record digraph =
  nodes :: "string list"
  node_attrs :: "string \<rightharpoonup> node_data"
  edges :: "(string \<times> string) list"
  pagerank_attr :: "string \<rightharpoonup> real"
  community_attr :: "string \<rightharpoonup> int"

definition empty_digraph :: digraph where
  "empty_digraph = \<lparr>nodes = [], node_attrs = Map.empty, edges = [],
     pagerank_attr = Map.empty, community_attr = Map.empty\<rparr>"

definition has_node :: "digraph \<Rightarrow> string \<Rightarrow> bool" where
  "has_node G n = (n \<in> set (nodes G))"

definition has_edge :: "digraph \<Rightarrow> string \<Rightarrow> string \<Rightarrow> bool" where
  "has_edge G u v = ((u, v) \<in> set (edges G))"

definition number_of_nodes :: "digraph \<Rightarrow> nat" where
  "number_of_nodes G = length (nodes G)"

definition successors :: "digraph \<Rightarrow> string \<Rightarrow> string list" where
  "successors G u = map snd (filter (\<lambda>e. fst e = u) (edges G))"

definition add_node :: "digraph \<Rightarrow> string \<Rightarrow> node_data \<Rightarrow> digraph" where
  "add_node G n d =
     G\<lparr>nodes := (if n \<in> set (nodes G) then nodes G else nodes G @ [n]),
       node_attrs := (node_attrs G)(n \<mapsto> d)\<rparr>"

definition add_bare_node :: "digraph \<Rightarrow> string \<Rightarrow> digraph" where
  "add_bare_node G n = (if n \<in> set (nodes G) then G else G\<lparr>nodes := nodes G @ [n]\<rparr>)"

definition add_edge :: "digraph \<Rightarrow> string \<Rightarrow> string \<Rightarrow> digraph" where
  "add_edge G u v =
     (let G1 = add_bare_node (add_bare_node G u) v
      in if (u, v) \<in> set (edges G1) then G1 else G1\<lparr>edges := edges G1 @ [(u, v)]\<rparr>)"

subsection \<open>The co-occurrence matrix (\<open>pd.DataFrame\<close>)\<close>

record matrix =
  m_index :: "string list"
  m_columns :: "string list"
  loc :: "string \<Rightarrow> string \<Rightarrow> real"

text \<open>
  The entries are numbers: the builder replaces every NaN by 0 before it returns the matrix.
  \<open>DataFrame.empty\<close>: some axis has length 0.
\<close>

definition df_empty :: "matrix \<Rightarrow> bool" where
  "df_empty M = (m_index M = [] \<or> m_columns M = [])"

text \<open>
  \<open>round(x, 3)\<close>: to three decimals, halves to the even neighbour.
\<close>

definition round3 :: "real \<Rightarrow> real" where
  "round3 x =
     (let y = x * 1000; f = \<lfloor>y\<rfloor>; d = y - of_int f
      in (if d < 1 / 2 then of_int f
          else if 1 / 2 < d then of_int (f + 1)
          else if even f then of_int f else of_int (f + 1)) / 1000)"

section \<open>Knowledge gap scorer: \<open>analyze_probabilistic_knowledge_gaps\<close>\<close>

record gap =
  Source_Category :: category
  Source_Node :: string
  Target_Category :: category
  Target_Node :: string
  Topological_Score :: nat
  Cooccurrence_Score :: real
  Bridge_Bonus :: real
  Predicted_Link_Strength :: real

text \<open>\<open>node_info[u]['category']\<close>, a KeyError when \<open>u\<close> is not a key.\<close>

definition category_of :: "node_info \<Rightarrow> string \<Rightarrow> error + category" where
  "category_of ni u = (case map_of ni u of None \<Rightarrow> Inl KeyError | Some d \<Rightarrow> Inr (category d))"

text \<open>\<open>len(set(G.successors(u)).intersection(set(G.successors(v))))\<close>\<close>

definition topo_score :: "digraph \<Rightarrow> string \<Rightarrow> string \<Rightarrow> nat" where
  "topo_score G u v =
     length (filter (\<lambda>x. x \<in> set (successors G v)) (remdups (successors G u)))"

definition cooc_score :: "matrix \<Rightarrow> string \<Rightarrow> string \<Rightarrow> real" where
  "cooc_score M u v =
     (if u \<in> set (m_index M) \<and> v \<in> set (m_columns M) then loc M u v else 0)"

definition bridge_bonus :: "category \<Rightarrow> category \<Rightarrow> real" where
  "bridge_bonus cu cv =
     (if (cu = Theory \<and> cv = Application) \<or> (cv = Theory \<and> cu = Application) then 1.5
      else if (cu = Material \<and> cv = Application) \<or> (cv = Material \<and> cu = Application) then 1.0
      else 0)"

definition predicted_link_strength :: "nat \<Rightarrow> real \<Rightarrow> real \<Rightarrow> real" where
  "predicted_link_strength topo cooc bonus = 2.0 * real topo + 1.0 * max 0 cooc + bonus"

text \<open>
  The body of the innermost loop for one pair \<open>(u, v)\<close>: \<open>Inr None\<close> when the pair is
  skipped or its strength does not exceed 1.0, \<open>Inr (Some r)\<close> when the record \<open>r\<close> is
  appended.
\<close>

fun score_pair :: "digraph \<Rightarrow> matrix \<Rightarrow> node_info \<Rightarrow> string \<times> string \<Rightarrow> error + gap option" where
  "score_pair G M ni (u, v) =
     (if u = v \<or> \<not> has_node G u \<or> \<not> has_node G v then Inr None
      else if \<not> has_edge G u v \<and> \<not> has_edge G v u then
        (case category_of ni u of
           Inl e \<Rightarrow> Inl e
         | Inr cu \<Rightarrow>
            (case category_of ni v of
               Inl e \<Rightarrow> Inl e
             | Inr cv \<Rightarrow>
                (let topo = topo_score G u v;
                     cooc = cooc_score M u v;
                     bonus = bridge_bonus cu cv;
                     strength = predicted_link_strength topo cooc bonus
                 in if 1.0 < strength
                    then Inr (Some \<lparr>Source_Category = cu, Source_Node = u,
                            Target_Category = cv, Target_Node = v,
                            Topological_Score = topo, Cooccurrence_Score = round3 cooc,
                            Bridge_Bonus = bonus, Predicted_Link_Strength = round3 strength\<rparr>)
                    else Inr None)))
      else Inr None)"

text \<open>A loop that appends what its body yields and stops at the first exception.\<close>

fun collect :: "('a \<Rightarrow> error + 'b option) \<Rightarrow> 'a list \<Rightarrow> error + 'b list" where
  "collect f [] = Inr []"
| "collect f (x # xs) =
     (case f x of Inl e \<Rightarrow> Inl e
      | Inr r \<Rightarrow> (case collect f xs of Inl e \<Rightarrow> Inl e
                  | Inr rs \<Rightarrow> Inr (case r of None \<Rightarrow> rs | Some y \<Rightarrow> y # rs)))"

text \<open>
  \<open>nodes_by_cat\<close>: one entry per value of \<open>NODE_CATEGORIES\<close>;
  \<open>nodes_by_cat.get(cat, [])\<close>.
\<close>

definition nodes_by_cat :: "node_info \<Rightarrow> digraph \<Rightarrow> (category \<times> string list) list" where
  "nodes_by_cat ni G =
     map (\<lambda>(f, cat, col). (cat, map fst (filter (\<lambda>(n, d). category d = cat \<and> has_node G n) ni)))
       NODE_CATEGORIES"

definition get_nodes :: "(category \<times> string list) list \<Rightarrow> category \<Rightarrow> string list" where
  "get_nodes nbc cat = (case map_of nbc cat of None \<Rightarrow> [] | Some ns \<Rightarrow> ns)"

text \<open>The pairs the three nested loops visit, in the order they visit them.\<close>

definition candidate_pairs :: "node_info \<Rightarrow> digraph \<Rightarrow> (string \<times> string) list" where
  "candidate_pairs ni G =
     (let nbc = nodes_by_cat ni G
      in concat (map (\<lambda>(cat1, cat2).
           concat (map (\<lambda>u. map (Pair u) (get_nodes nbc cat2)) (get_nodes nbc cat1)))
         (combinations2 CATEGORY_ORDER)))"

text \<open>
  \<open>sort_values(by='Predicted_Link_Strength', ascending=False)\<close>. The rows come out by
  descending key. pandas' default sort is not stable, so the order it gives to rows of equal
  key is not the one of this stable sort; the properties below speak of the set of rows only.
\<close>

definition sort_gaps :: "gap list \<Rightarrow> gap list" where
  "sort_gaps gs = sort_key (\<lambda>r. - Predicted_Link_Strength r) gs"

text \<open>
  The scorer up to its return value \<open>df_gaps\<close>: \<open>Inr None\<close> is Python's \<open>return None\<close>
  (the stage is skipped, or no pair scored above the threshold). The atlas heat map
  drawn from \<open>df_gaps\<close> before the return is an export and is not modelled.
\<close>

definition analyze_probabilistic_knowledge_gaps ::
  "digraph \<Rightarrow> matrix \<Rightarrow> node_info \<Rightarrow> error + gap list option" where
  "analyze_probabilistic_knowledge_gaps G M ni =
     (if number_of_nodes G = 0 \<or> df_empty M then Inr None
      else case collect (score_pair G M ni) (candidate_pairs ni G) of
             Inl e \<Rightarrow> Inl e
           | Inr all_potential_links \<Rightarrow>
               if all_potential_links = [] then Inr None
               else Inr (Some (sort_gaps all_potential_links)))"

text \<open>The rows of the returned table; none when nothing is returned.\<close>

definition gap_rows :: "gap list option \<Rightarrow> gap list" where
  "gap_rows res = (case res of None \<Rightarrow> [] | Some gs \<Rightarrow> gs)"

section \<open>The gap scorer in floating-point arithmetic\<close>

text \<open>
  The same scorer with the floating-point operations of line 471 and of \<open>round\<close> left
  open. A double is represented by the real number it denotes, so \<open>max\<close> and the
  comparison with 1.0 are exact; \<open>fl_add\<close> and \<open>fl_mul\<close> stand for the double-precision
  sum and product, \<open>fl_round3\<close> for \<open>round(x, 3)\<close> on a double. What is proved for every
  such arithmetic holds for the one the interpreter uses. The scorer above is this one at
  exact arithmetic.
\<close>

record float_arith =
  fl_add :: "real \<Rightarrow> real \<Rightarrow> real"
  fl_mul :: "real \<Rightarrow> real \<Rightarrow> real"
  fl_round3 :: "real \<Rightarrow> real"

definition exact_arith :: float_arith where
  "exact_arith = \<lparr>fl_add = (+), fl_mul = (*), fl_round3 = round3\<rparr>"

text \<open>\<open>(2.0 * topo_score) + (1.0 * max(0, cooc_score)) + bridge_bonus\<close>, added from the left.\<close>

definition predicted_link_strength_fl :: "float_arith \<Rightarrow> nat \<Rightarrow> real \<Rightarrow> real \<Rightarrow> real" where
  "predicted_link_strength_fl A topo cooc bonus =
     fl_add A (fl_add A (fl_mul A 2.0 (real topo)) (fl_mul A 1.0 (max 0 cooc))) bonus"

fun score_pair_fl :: "float_arith \<Rightarrow> digraph \<Rightarrow> matrix \<Rightarrow> node_info \<Rightarrow> string \<times> string \<Rightarrow> error + gap option" where
  "score_pair_fl A G M ni (u, v) =
     (if u = v \<or> \<not> has_node G u \<or> \<not> has_node G v then Inr None
      else if \<not> has_edge G u v \<and> \<not> has_edge G v u then
        (case category_of ni u of
           Inl e \<Rightarrow> Inl e
         | Inr cu \<Rightarrow>
            (case category_of ni v of
               Inl e \<Rightarrow> Inl e
             | Inr cv \<Rightarrow>
                (let topo = topo_score G u v;
                     cooc = cooc_score M u v;
                     bonus = bridge_bonus cu cv;
                     strength = predicted_link_strength_fl A topo cooc bonus
                 in if 1.0 < strength
                    then Inr (Some \<lparr>Source_Category = cu, Source_Node = u,
                            Target_Category = cv, Target_Node = v,
                            Topological_Score = topo, Cooccurrence_Score = fl_round3 A cooc,
                            Bridge_Bonus = bonus,
                            Predicted_Link_Strength = fl_round3 A strength\<rparr>)
                    else Inr None)))
      else Inr None)"

definition analyze_probabilistic_knowledge_gaps_fl ::
  "float_arith \<Rightarrow> digraph \<Rightarrow> matrix \<Rightarrow> node_info \<Rightarrow> error + gap list option" where
  "analyze_probabilistic_knowledge_gaps_fl A G M ni =
     (if number_of_nodes G = 0 \<or> df_empty M then Inr None
      else case collect (score_pair_fl A G M ni) (candidate_pairs ni G) of
             Inl e \<Rightarrow> Inl e
           | Inr all_potential_links \<Rightarrow>
               if all_potential_links = [] then Inr None
               else Inr (Some (sort_gaps all_potential_links)))"

section \<open>Trajectory synthesizer: \<open>synthesize_and_plot_trajectory\<close>\<close>

subsection \<open>The pruned co-occurrence graph (\<open>nx.Graph\<close>)\<close>

text \<open>
  An undirected weighted graph: each edge is stored once, in the orientation of its first
  insertion, with its \<open>weight\<close> attribute; the list is in insertion order. The nodes are
  the endpoints, since the code only ever calls \<open>add_edge\<close>.
\<close>

type_synonym wgraph = "((string \<times> string) \<times> real) list"

definition has_wedge :: "wgraph \<Rightarrow> string \<Rightarrow> string \<Rightarrow> bool" where
  "has_wedge g u v = ((u, v) \<in> set (map fst g) \<or> (v, u) \<in> set (map fst g))"

definition has_wnode :: "wgraph \<Rightarrow> string \<Rightarrow> bool" where
  "has_wnode g n = list_ex (\<lambda>((a, b), w). n = a \<or> n = b) g"

text \<open>\<open>G[u][v]['weight']\<close>, \<open>None\<close> where there is no such edge.\<close>

definition wedge_weight :: "wgraph \<Rightarrow> string \<Rightarrow> string \<Rightarrow> real option" where
  "wedge_weight g u v = (case map_of g (u, v) of Some w \<Rightarrow> Some w | None \<Rightarrow> map_of g (v, u))"

definition add_wedge :: "wgraph \<Rightarrow> string \<Rightarrow> string \<Rightarrow> real \<Rightarrow> wgraph" where
  "add_wedge g u v w =
     (if has_wedge g u v
      then map (\<lambda>(e, w'). if e = (u, v) \<or> e = (v, u) then (e, w) else (e, w')) g
      else g @ [((u, v), w)])"

text \<open>The adjacency of \<open>u\<close>, in insertion order.\<close>

definition wneighbors :: "wgraph \<Rightarrow> string \<Rightarrow> string list" where
  "wneighbors g u =
     concat (map (\<lambda>((a, b), w). if a = u then [b] else if b = u then [a] else []) g)"

definition build_cooc_graph :: "matrix \<Rightarrow> real \<Rightarrow> wgraph" where
  "build_cooc_graph M min_cooc_for_edge_in_path =
     fold (\<lambda>(u, v) g.
        if u \<in> set (m_index M) \<and> v \<in> set (m_columns M) \<and> u \<noteq> v
        then (let score = loc M u v
              in if min_cooc_for_edge_in_path < score then add_wedge g u v score else g)
        else g)
       (combinations2 (m_columns M)) []"

subsection \<open>Path enumeration (\<open>nx.all_simple_paths\<close>)\<close>

text \<open>
  networkx's depth-first enumeration of the simple paths from the source to the target
  with at most \<open>cutoff\<close> edges, in the order of the adjacency lists: \<open>visited\<close> is the path
  walked so far (it ends in \<open>u\<close>), a child already on it is skipped, the target closes a
  path and is not walked through. A missing endpoint raises \<open>NodeNotFound\<close>. For
  source = target networkx yields nothing or the one-node path, depending on its version;
  the caller keeps only paths of two or more nodes, so both give the same
  \<open>all_found_paths\<close>.
\<close>

fun simple_paths_from :: "wgraph \<Rightarrow> string \<Rightarrow> nat \<Rightarrow> string list \<Rightarrow> string \<Rightarrow> string list list" where
  "simple_paths_from g t 0 visited u = []"
| "simple_paths_from g t (Suc k) visited u =
     concat (map (\<lambda>c. if c \<in> set visited then []
                       else if c = t then [visited @ [c]]
                       else simple_paths_from g t k (visited @ [c]) c)
              (wneighbors g u))"

definition all_simple_paths :: "wgraph \<Rightarrow> string \<Rightarrow> string \<Rightarrow> int \<Rightarrow> error + string list list" where
  "all_simple_paths g s t cutoff =
     (if \<not> has_wnode g s \<or> \<not> has_wnode g t then Inl NodeNotFound
      else if s = t \<or> cutoff < 1 then Inr []
      else Inr (simple_paths_from g t (nat cutoff) [s] s))"

subsection \<open>Scoring one path\<close>

record path_record =
  path_nodes :: "string list"
  score :: real
  path_str :: string
  path_length :: nat
  avg_cooc_score :: real
  num_explicit_links :: nat
  hierarchical_flow_score :: nat
  category_span_score :: nat

text \<open>The variables of the scoring loop.\<close>

record scan_state =
  path_cooc_scores :: "real list"
  explicit_links_count :: nat
  hierarchical_score :: nat
  path_categories_set :: "category list"
  valid_path :: bool

definition initial_scan_state :: scan_state where
  "initial_scan_state = \<lparr>path_cooc_scores = [], explicit_links_count = 0,
     hierarchical_score = 0, path_categories_set = [], valid_path = True\<rparr>"

text \<open>\<open>node_info.get(u, {}).get('category')\<close>\<close>

definition get_category :: "node_info \<Rightarrow> string \<Rightarrow> category option" where
  "get_category ni u = map_option category (map_of ni u)"

text \<open>
  The test of line 299-300: both categories known and in \<open>CATEGORY_ORDER\<close>, and
  \<open>CATEGORY_ORDER.index(cat_v) >= CATEGORY_ORDER.index(cat_u)\<close>.
\<close>

definition hierarchical_step :: "category option \<Rightarrow> category option \<Rightarrow> bool" where
  "hierarchical_step cat_u cat_v =
     (case cat_u of None \<Rightarrow> False
      | Some cu \<Rightarrow>
         (case cat_v of None \<Rightarrow> False
          | Some cv \<Rightarrow>
             (case list_index CATEGORY_ORDER cu of None \<Rightarrow> False
              | Some i \<Rightarrow>
                 (case list_index CATEGORY_ORDER cv of None \<Rightarrow> False
                  | Some j \<Rightarrow> i \<le> j))))"

text \<open>
  The loop \<open>for i in range(len(path) - 1)\<close> over the steps \<open>(path[i], path[i+1])\<close>; a
  step that is no edge of the pruned graph clears \<open>valid_path\<close> and breaks. The set of
  categories is a list without repetitions.
\<close>

fun scan_path :: "wgraph \<Rightarrow> digraph \<Rightarrow> node_info \<Rightarrow> string list \<Rightarrow> scan_state \<Rightarrow> scan_state" where
  "scan_path g G ni (u # v # rest) st =
     (case wedge_weight g u v of
        None \<Rightarrow> st\<lparr>valid_path := False\<rparr>
      | Some w \<Rightarrow>
          (let cat_u = get_category ni u; cat_v = get_category ni v
           in scan_path g G ni (v # rest)
                (st\<lparr>path_cooc_scores := path_cooc_scores st @ [w],
                    explicit_links_count :=
                      (if has_edge G u v then explicit_links_count st + 1
                       else explicit_links_count st),
                    hierarchical_score :=
                      (if hierarchical_step cat_u cat_v then hierarchical_score st + 1
                       else hierarchical_score st),
                    path_categories_set :=
                      (case cat_u of None \<Rightarrow> path_categories_set st
                       | Some c \<Rightarrow> List.insert c (path_categories_set st))\<rparr>)))"
| "scan_path g G ni path st = st"

definition np_mean :: "real list \<Rightarrow> real" where
  "np_mean xs = sum_list xs / real (length xs)"

text \<open>\<open>' -> '.join(path)\<close>\<close>

fun join_arrow :: "string list \<Rightarrow> string" where
  "join_arrow [] = []"
| "join_arrow [x] = x"
| "join_arrow (x # xs) = x @ '' -> '' @ join_arrow xs"

text \<open>
  The body of the loop over \<open>all_found_paths\<close>: \<open>Inr None\<close> is the \<open>continue\<close> of an
  invalid path, \<open>Inr (Some r)\<close> the record appended to \<open>scored_paths_list\<close>. The
  \<open>path_str\<close> column, which the code adds after sorting, is filled in here.
\<close>

definition score_path :: "wgraph \<Rightarrow> digraph \<Rightarrow> node_info \<Rightarrow> string list \<Rightarrow> error + path_record option" where
  "score_path g G ni path =
     (case path of
        [] \<Rightarrow> Inl IndexError
      | _ # _ \<Rightarrow>
        (let st = scan_path g G ni path initial_scan_state;
             cats = (case map_of ni (last path) of
                       None \<Rightarrow> path_categories_set st
                     | Some d \<Rightarrow> List.insert (category d) (path_categories_set st))
         in if \<not> valid_path st then Inr None
            else
              (let avg_cooc = (if path_cooc_scores st \<noteq> [] then np_mean (path_cooc_scores st) else 0);
                   category_span_bonus = (if 3 \<le> length cats then length cats else 0);
                   final_score = avg_cooc * 10 + real (explicit_links_count st) * 5
                                 + real (hierarchical_score st) * 2 + real category_span_bonus * 1
               in Inr (Some \<lparr>path_nodes = path, score = final_score, path_str = join_arrow path,
                        path_length = length path, avg_cooc_score = round3 avg_cooc,
                        num_explicit_links = explicit_links_count st,
                        hierarchical_flow_score = hierarchical_score st,
                        category_span_score = category_span_bonus\<rparr>))))"

definition fallback_row :: "string \<Rightarrow> string \<Rightarrow> path_record" where
  "fallback_row start_node_id end_node_id =
     \<lparr>path_nodes = [start_node_id, end_node_id], score = 0,
      path_str = join_arrow [start_node_id, end_node_id], path_length = 2,
      avg_cooc_score = 0, num_explicit_links = 0, hierarchical_flow_score = 0,
      category_span_score = 0\<rparr>"

text \<open>
  \<open>sort_values(by='score', ascending=False)\<close> and \<open>DataFrame.head(n)\<close>. As for the
  gap list, the order among paths of equal score, and with it the choice of the best path
  among them, is not the one pandas gives; the properties below do not depend on it.
\<close>

definition sort_paths :: "path_record list \<Rightarrow> path_record list" where
  "sort_paths rs = sort_key (\<lambda>r. - score r) rs"

definition df_head :: "int \<Rightarrow> 'a list \<Rightarrow> 'a list" where
  "df_head n xs = (if 0 \<le> n then take (nat n) xs else take (length xs - nat (- n)) xs)"

subsection \<open>The synthesizer up to the table it saves\<close>

text \<open>
  The Python function returns no value; what it produces is the table written to
  \<open>top_trajectories_<start>_to_<end>.csv\<close> and the best path handed to the drawing code.
  \<open>Start_End_Missing\<close>: the first guard returned and nothing was written.
  \<open>Empty_Table_Saved\<close>: the second guard wrote a table with the column names and no
  rows. \<open>Table_Saved rows best\<close>: the rows written and \<open>best_path_nodes_for_vis\<close>. The
  drawing of the best path that follows is an export and is not modelled.
\<close>

datatype trajectory_outcome =
  Start_End_Missing
| Empty_Table_Saved
| Table_Saved "path_record list" "string list"

definition synthesize_and_plot_trajectory ::
  "digraph \<Rightarrow> matrix \<Rightarrow> node_info \<Rightarrow> string \<Rightarrow> string \<Rightarrow> int \<Rightarrow> real \<Rightarrow> int \<Rightarrow> error + trajectory_outcome" where
  "synthesize_and_plot_trajectory G M ni start_node_id end_node_id
       max_path_len_for_search min_cooc_for_edge_in_path top_n_paths_to_save =
     (if \<not> has_node G start_node_id \<or> \<not> has_node G end_node_id \<or>
         start_node_id \<notin> set (map fst ni) \<or> end_node_id \<notin> set (map fst ni)
      then Inr Start_End_Missing
      else
        (let G_cooc_weighted = build_cooc_graph M min_cooc_for_edge_in_path
         in if \<not> has_wnode G_cooc_weighted start_node_id \<or> \<not> has_wnode G_cooc_weighted end_node_id
            then Inr Empty_Table_Saved
            else
              (case all_simple_paths G_cooc_weighted start_node_id end_node_id
                      max_path_len_for_search of
                 Inl e \<Rightarrow> Inl e
               | Inr paths \<Rightarrow>
                  (let all_found_paths = filter (\<lambda>path. 2 \<le> length path) paths;
                       fallback = Inr (Table_Saved
                          (df_head top_n_paths_to_save [fallback_row start_node_id end_node_id])
                          [start_node_id, end_node_id])
                   in if all_found_paths = [] then fallback
                      else
                        (case collect (score_path G_cooc_weighted G ni) all_found_paths of
                           Inl e \<Rightarrow> Inl e
                         | Inr scored_paths_list \<Rightarrow>
                            if scored_paths_list = [] then fallback
                            else
                              (let df_paths_to_save = sort_paths scored_paths_list
                               in case df_paths_to_save of
                                    [] \<Rightarrow> Inl IndexError
                                  | best # rest \<Rightarrow>
                                      Inr (Table_Saved
                                             (df_head top_n_paths_to_save df_paths_to_save)
                                             (path_nodes best))))))))"

section \<open>Centrality and community engine: \<open>analyze_centrality_and_communities\<close>\<close>

text \<open>
  \<open>nx.pagerank\<close> and \<open>community_louvain.best_partition\<close> are library functions and are
  parameters of the model; degree and betweenness centrality only feed the exported
  tables and plots. \<open>Skipped\<close> stands for the message of the first guard.
\<close>

datatype stage_signal = Skipped | Completed

text \<open>\<open>nx.set_node_attributes(G, values, name)\<close> writes the values of the nodes of \<open>G\<close>.\<close>

definition set_pagerank :: "digraph \<Rightarrow> (string \<rightharpoonup> real) \<Rightarrow> digraph" where
  "set_pagerank G values = G\<lparr>pagerank_attr := pagerank_attr G ++ (values |` set (nodes G))\<rparr>"

definition set_community :: "digraph \<Rightarrow> (string \<rightharpoonup> int) \<Rightarrow> digraph" where
  "set_community G values = G\<lparr>community_attr := community_attr G ++ (values |` set (nodes G))\<rparr>"

text \<open>\<open>G.to_undirected()\<close>: the same nodes, the two directions of a link merged.\<close>

definition to_undirected :: "digraph \<Rightarrow> digraph" where
  "to_undirected G =
     G\<lparr>edges := fold (\<lambda>(u, v) es. if (u, v) \<in> set es \<or> (v, u) \<in> set es then es else es @ [(u, v)])
                  (edges G) []\<rparr>"

definition analyze_centrality_and_communities ::
  "(digraph \<Rightarrow> error + (string \<rightharpoonup> real)) \<Rightarrow> (digraph \<Rightarrow> int \<Rightarrow> (string \<rightharpoonup> int)) \<Rightarrow>
     digraph \<Rightarrow> error + stage_signal \<times> digraph" where
  "analyze_centrality_and_communities nx_pagerank best_partition G_directed =
     (if number_of_nodes G_directed = 0 then Inr (Skipped, G_directed)
      else
        (case nx_pagerank G_directed of
           Inl e \<Rightarrow> Inl e
         | Inr pagerank_cent \<Rightarrow>
            (let G1 = set_pagerank G_directed pagerank_cent;
                 G_undirected = to_undirected G1
             in if number_of_nodes G_undirected = 0 then Inr (Completed, G1)
                else Inr (Completed, set_community G1 (best_partition G_undirected 42)))))"

section \<open>The trajectory score as the specification words it\<close>

text \<open>
  The four components of the combined score, written as closed forms over the steps of a
  path, to be compared with what the scoring loop accumulates.
\<close>

definition path_steps :: "string list \<Rightarrow> (string \<times> string) list" where
  "path_steps path = zip path (tl path)"

definition category_position :: "category \<Rightarrow> nat" where
  "category_position c =
     (case c of Theory \<Rightarrow> 0 | Mechanism \<Rightarrow> 1 | Phenomenon \<Rightarrow> 2
      | Method \<Rightarrow> 3 | Material \<Rightarrow> 4 | Application \<Rightarrow> 5)"

definition spec_step_weights :: "wgraph \<Rightarrow> string list \<Rightarrow> real list" where
  "spec_step_weights g path =
     map (\<lambda>(u, v). case wedge_weight g u v of None \<Rightarrow> 0 | Some w \<Rightarrow> w) (path_steps path)"

definition spec_avg_cooccurrence :: "wgraph \<Rightarrow> string list \<Rightarrow> real" where
  "spec_avg_cooccurrence g path =
     sum_list (spec_step_weights g path) / real (length (path_steps path))"

definition spec_explicit_link_count :: "digraph \<Rightarrow> string list \<Rightarrow> nat" where
  "spec_explicit_link_count G path =
     length (filter (\<lambda>(u, v). has_edge G u v) (path_steps path))"

definition spec_forward_step :: "node_info \<Rightarrow> string \<times> string \<Rightarrow> bool" where
  "spec_forward_step ni step =
     (case get_category ni (fst step) of None \<Rightarrow> False
      | Some cu \<Rightarrow>
         (case get_category ni (snd step) of None \<Rightarrow> False
          | Some cv \<Rightarrow> category_position cu \<le> category_position cv))"

definition spec_hierarchy_score :: "node_info \<Rightarrow> string list \<Rightarrow> nat" where
  "spec_hierarchy_score ni path = length (filter (spec_forward_step ni) (path_steps path))"

definition spec_category_span_bonus :: "node_info \<Rightarrow> string list \<Rightarrow> nat" where
  "spec_category_span_bonus ni path =
     (let n = card (set (List.map_filter (get_category ni) path)) in if 3 \<le> n then n else 0)"

definition spec_trajectory_score :: "wgraph \<Rightarrow> digraph \<Rightarrow> node_info \<Rightarrow> string list \<Rightarrow> real" where
  "spec_trajectory_score g G ni path =
     10 * spec_avg_cooccurrence g path + 5 * real (spec_explicit_link_count G path)
     + 2 * real (spec_hierarchy_score ni path) + 1 * real (spec_category_span_bonus ni path)"

section \<open>Reading the documents\<close>

text \<open>
  The file system maps a file name to the text that \<open>open(..).read()\<close> returns, \<open>None\<close>
  where \<open>open\<close> raises. A character is a code point below 256. The three regular
  expressions of the source are matched by hand: each of their repetitions is greedy and
  is followed by a character outside its class, so a match at a position is the longest
  run of each class.
\<close>

type_synonym file_system = "string \<rightharpoonup> string"

text \<open>\<open>[a-zA-Z0-9\-\_]\<close>, \<open>[a-z\-\_]\<close> and \<open>\s\<close>.\<close>

definition is_id_char :: "char \<Rightarrow> bool" where
  "is_id_char c =
     (let n = (of_char c :: nat)
      in (97 \<le> n \<and> n \<le> 122) \<or> (65 \<le> n \<and> n \<le> 90) \<or> (48 \<le> n \<and> n \<le> 57) \<or> n = 45 \<or> n = 95)"

definition is_file_char :: "char \<Rightarrow> bool" where
  "is_file_char c = (let n = (of_char c :: nat) in (97 \<le> n \<and> n \<le> 122) \<or> n = 45 \<or> n = 95)"

definition is_space :: "char \<Rightarrow> bool" where
  "is_space c =
     (let n = (of_char c :: nat)
      in (9 \<le> n \<and> n \<le> 13) \<or> (28 \<le> n \<and> n \<le> 32) \<or> n = 133 \<or> n = 160)"

text \<open>
  A match of \<open>###\s+([a-zA-Z0-9\-\_]+)\<close> at the head of the text: the group and the
  length of the match.
\<close>

definition match_header :: "string \<Rightarrow> (string \<times> nat) option" where
  "match_header s =
     (if take 3 s = ''###''
      then (let r = drop 3 s;
                ws = takeWhile is_space r;
                name = takeWhile is_id_char (dropWhile is_space r)
            in if ws \<noteq> [] \<and> name \<noteq> [] then Some (name, 3 + length ws + length name)
               else None)
      else None)"

text \<open>A match of \<open>###\s+\<close> at the head of the text: its length.\<close>

definition match_separator :: "string \<Rightarrow> nat option" where
  "match_separator s =
     (if take 3 s = ''###'' \<and> takeWhile is_space (drop 3 s) \<noteq> []
      then Some (3 + length (takeWhile is_space (drop 3 s)))
      else None)"

text \<open>
  A match of \<open>\[\[\./([a-z\-\_]+\.md)#([a-zA-Z0-9\-\_]+)\]\]\<close> at the head of the text:
  the two groups and the length of the match.
\<close>

definition match_link :: "string \<Rightarrow> ((string \<times> string) \<times> nat) option" where
  "match_link s =
     (if take 4 s = ''[[./''
      then (let r = drop 4 s;
                file = takeWhile is_file_char r;
                r2 = dropWhile is_file_char r
            in if file \<noteq> [] \<and> take 4 r2 = ''.md#''
               then (let r3 = drop 4 r2;
                         target = takeWhile is_id_char r3;
                         r4 = dropWhile is_id_char r3
                     in if target \<noteq> [] \<and> take 2 r4 = '']]''
                        then Some ((file @ ''.md'', target),
                                   4 + length file + 4 + length target + 2)
                        else None)
               else None)
      else None)"

text \<open>
  \<open>re.findall\<close>: scan from the left; where the pattern matches, yield its groups and go on
  after the match (the first argument counts the characters of the match still to skip),
  else move one character on.
\<close>

fun findall_loop :: "(string \<Rightarrow> ('a \<times> nat) option) \<Rightarrow> nat \<Rightarrow> string \<Rightarrow> 'a list" where
  "findall_loop m k [] = []"
| "findall_loop m (Suc k) (c # cs) = findall_loop m k cs"
| "findall_loop m 0 (c # cs) =
     (case m (c # cs) of
        None \<Rightarrow> findall_loop m 0 cs
      | Some (x, n) \<Rightarrow> x # findall_loop m (n - 1) cs)"

definition findall_headers :: "string \<Rightarrow> string list" where
  "findall_headers content = findall_loop match_header 0 content"

definition findall_links :: "string \<Rightarrow> (string \<times> string) list" where
  "findall_links content = findall_loop match_link 0 content"

text \<open>\<open>re.split(r"###\s+", content)\<close>: the pieces between the matches.\<close>

fun split_loop :: "nat \<Rightarrow> string \<Rightarrow> string \<Rightarrow> string list" where
  "split_loop k piece [] = [piece]"
| "split_loop (Suc k) piece (c # cs) = split_loop k piece cs"
| "split_loop 0 piece (c # cs) =
     (case match_separator (c # cs) of
        None \<Rightarrow> split_loop 0 (piece @ [c]) cs
      | Some n \<Rightarrow> piece # split_loop (n - 1) [] cs)"

definition split_sections :: "string \<Rightarrow> string list" where
  "split_sections content = split_loop 0 [] content"

section \<open>Metadata extractor: \<open>get_node_metadata\<close>\<close>

text \<open>The inner loop over the headers of one file: a header already registered is left alone.\<close>

fun add_headers :: "node_data \<Rightarrow> string list \<Rightarrow> node_info \<Rightarrow> node_info" where
  "add_headers d [] node_info = node_info"
| "add_headers d (header # headers) node_info =
     add_headers d headers
       (if header \<in> set (map fst node_info) then node_info else node_info @ [(header, d)])"

fun get_node_metadata_from :: "file_system \<Rightarrow> string list \<Rightarrow> node_info \<Rightarrow> error + node_info" where
  "get_node_metadata_from fs [] node_info = Inr node_info"
| "get_node_metadata_from fs (md_file # files) node_info =
     (case map_of NODE_CATEGORIES md_file of
        None \<Rightarrow> get_node_metadata_from fs files node_info
      | Some (cat, col) \<Rightarrow>
         (case fs md_file of
            None \<Rightarrow> Inl FileNotFoundError
          | Some content \<Rightarrow>
              get_node_metadata_from fs files
                (add_headers \<lparr>category = cat, color = col\<rparr> (findall_headers content) node_info)))"

definition get_node_metadata :: "file_system \<Rightarrow> string list \<Rightarrow> error + node_info" where
  "get_node_metadata fs files = get_node_metadata_from fs files []"

text \<open>
  The specification's view: every defining header of every categorised document, in
  processing order, with the category and colour of its document.
\<close>

definition spec_definitions :: "file_system \<Rightarrow> string list \<Rightarrow> (string \<times> node_data) list" where
  "spec_definitions fs files =
     concat (map (\<lambda>md_file.
        case map_of NODE_CATEGORIES md_file of
          None \<Rightarrow> []
        | Some (cat, col) \<Rightarrow>
           (case fs md_file of
              None \<Rightarrow> []
            | Some content \<Rightarrow>
                map (\<lambda>header. (header, \<lparr>category = cat, color = col\<rparr>)) (findall_headers content)))
       files)"

section \<open>Link graph builder: \<open>build_explicit_link_graph\<close>\<close>

text \<open>The links of one section, owned by \<open>source_node\<close>.\<close>

definition add_section_links :: "digraph \<Rightarrow> string \<Rightarrow> string \<Rightarrow> digraph" where
  "add_section_links G source_node section =
     (if has_node G source_node
      then fold (\<lambda>(f, target_node) G. if has_node G target_node
                                          then add_edge G source_node target_node else G)
             (findall_links section) G
      else G)"

text \<open>
  One file: \<open>enumerate(sections[1:], 1)\<close> under the test \<open>i < len(headers)\<close> pairs
  \<open>headers[i]\<close> with \<open>sections[i]\<close> for every \<open>i \<ge> 1\<close> that both lists have.
\<close>

definition add_file_links :: "digraph \<Rightarrow> string \<Rightarrow> digraph" where
  "add_file_links G content =
     (let sections = split_sections content;
          headers = [] # findall_headers content
      in fold (\<lambda>(source_node, section) G. add_section_links G source_node section)
           (zip (drop 1 headers) (drop 1 sections)) G)"

fun build_links_from :: "file_system \<Rightarrow> string list \<Rightarrow> digraph \<Rightarrow> error + digraph" where
  "build_links_from fs [] G = Inr G"
| "build_links_from fs (md_file # files) G =
     (case map_of NODE_CATEGORIES md_file of
        None \<Rightarrow> build_links_from fs files G
      | Some cc \<Rightarrow>
         (case fs md_file of
            None \<Rightarrow> Inl FileNotFoundError
          | Some content \<Rightarrow> build_links_from fs files (add_file_links G content)))"

definition build_explicit_link_graph :: "file_system \<Rightarrow> string list \<Rightarrow> node_info \<Rightarrow> error + digraph" where
  "build_explicit_link_graph fs files node_info =
     build_links_from fs files (fold (\<lambda>(node, data) G. add_node G node data) node_info empty_digraph)"

section \<open>Co-occurrence builder: \<open>build_cooccurrence_data\<close>\<close>

text \<open>
  \<open>doc_links\<close>: the link targets of every categorised file, in the order read; as a dict it
  is read with \<open>map_of\<close>, and a file named twice has the same targets both times.
\<close>

fun read_doc_links :: "file_system \<Rightarrow> string list \<Rightarrow> error + (string \<times> string list) list" where
  "read_doc_links fs [] = Inr []"
| "read_doc_links fs (mf # files) =
     (case map_of NODE_CATEGORIES mf of
        None \<Rightarrow> read_doc_links fs files
      | Some cc \<Rightarrow>
         (case fs mf of
            None \<Rightarrow> Inl FileNotFoundError
          | Some content \<Rightarrow>
             (case read_doc_links fs files of
                Inl e \<Rightarrow> Inl e
              | Inr doc_links \<Rightarrow> Inr ((mf, map snd (findall_links content)) # doc_links))))"

text \<open>
  The cell \<open>(concept, doc)\<close> of the abundance table, for a concept of its index: the number
  of times the concept is a link target in the document.
\<close>

definition abundance :: "(string \<times> string list) list \<Rightarrow> string \<Rightarrow> string \<Rightarrow> nat" where
  "abundance doc_links concept doc =
     (case map_of doc_links doc of None \<Rightarrow> 0 | Some links \<Rightarrow> count_list links concept)"

definition doc_columns :: "(string \<times> string list) list \<Rightarrow> string list" where
  "doc_columns doc_links = sort (remdups (map fst doc_links))"

definition abundance_row :: "(string \<times> string list) list \<Rightarrow> string \<Rightarrow> nat list" where
  "abundance_row doc_links concept = map (abundance doc_links concept) (doc_columns doc_links)"

text \<open>
  \<open>DataFrame.corr(method='spearman')\<close> for two columns without missing values, as pandas
  computes it: the values are replaced by their average ranks, whose mean is
  \<open>(n + 1) / 2\<close>, and the Pearson coefficient of the ranks is taken; \<open>None\<close> is NaN, the
  result when the divisor is 0.
\<close>

definition average_rank :: "nat list \<Rightarrow> nat \<Rightarrow> real" where
  "average_rank xs x =
     real (length (filter (\<lambda>y. y < x) xs)) + (real (length (filter (\<lambda>y. y = x) xs)) + 1) / 2"

definition spearman :: "nat list \<Rightarrow> nat list \<Rightarrow> real option" where
  "spearman xs ys =
     (let mean = (real (length xs) + 1) / 2;
          vx = map (\<lambda>x. average_rank xs x - mean) xs;
          vy = map (\<lambda>y. average_rank ys y - mean) ys;
          sumx = sum_list (map (\<lambda>(a, b). a * b) (zip vx vy));
          sumxx = sum_list (map (\<lambda>a. a * a) vx);
          sumyy = sum_list (map (\<lambda>b. b * b) vy);
          divisor = sqrt (sumxx * sumyy)
      in if length xs < 1 then None
         else if divisor \<noteq> 0 then Some (sumx / divisor) else None)"

text \<open>\<open>fillna(0)\<close>\<close>

definition fillna0 :: "real option \<Rightarrow> real" where
  "fillna0 x = (case x of None \<Rightarrow> 0 | Some r \<Rightarrow> r)"

definition build_cooccurrence_data :: "file_system \<Rightarrow> string list \<Rightarrow> node_info \<Rightarrow> error + matrix" where
  "build_cooccurrence_data fs files node_info =
     (case read_doc_links fs files of
        Inl e \<Rightarrow> Inl e
      | Inr doc_links \<Rightarrow>
         (let index = sort (map fst node_info);
              retained = filter (\<lambda>concept. 0 < sum_list (abundance_row doc_links concept)) index
          in Inr \<lparr>m_index = retained, m_columns = retained,
                  loc = (\<lambda>u v. fillna0 (spearman (abundance_row doc_links u)
                                                  (abundance_row doc_links v)))\<rparr>))"

text \<open>The total reference count of a concept across the documents, as the specification words it.\<close>

definition spec_total_references :: "(string \<times> string list) list \<Rightarrow> string \<Rightarrow> nat" where
  "spec_total_references doc_links concept =
     (\<Sum>doc\<in>set (map fst doc_links). abundance doc_links concept doc)"

section \<open>Auxiliary notions and example inputs\<close>

definition ex_registry :: node_info where
  "ex_registry = [(''m1'', \<lparr>category = Material, color = ''#377eb8''\<rparr>),
                  (''m2'', \<lparr>category = Application, color = ''#e41a1c''\<rparr>)]"

definition ex_graph :: digraph where
  "ex_graph = \<lparr>nodes = [''m1'', ''m2''], node_attrs = map_of ex_registry, edges = [],
     pagerank_attr = Map.empty, community_attr = Map.empty\<rparr>"

definition ex_matrix :: matrix where
  "ex_matrix = \<lparr>m_index = [''m1'', ''m2''], m_columns = [''m1'', ''m2''],
     loc = (\<lambda>a b. if a = b then 1 else 1 / 2)\<rparr>"

definition ex_registry2 :: node_info where
  "ex_registry2 = [(''alpha'', \<lparr>category = Theory, color = ''#a65628''\<rparr>),
                   (''m2'', \<lparr>category = Application, color = ''#e41a1c''\<rparr>)]"

definition ex_graph2 :: digraph where
  "ex_graph2 = \<lparr>nodes = [''alpha'', ''m2''], node_attrs = map_of ex_registry2, edges = [],
     pagerank_attr = Map.empty, community_attr = Map.empty\<rparr>"

definition ex_empty_matrix :: matrix where
  "ex_empty_matrix = \<lparr>m_index = [], m_columns = [], loc = (\<lambda>a b. 0)\<rparr>"

definition ex_matrix_other :: matrix where
  "ex_matrix_other = \<lparr>m_index = [''m1''], m_columns = [''m1''], loc = (\<lambda>a b. 1)\<rparr>"

definition is_walk :: "wgraph \<Rightarrow> string list \<Rightarrow> bool" where
  "is_walk g path = (\<forall>(a, b)\<in>set (path_steps path). has_wedge g a b)"

definition step_categories :: "node_info \<Rightarrow> string list \<Rightarrow> category set" where
  "step_categories ni p = set (List.map_filter (get_category ni) p)"



definition ex_matrix_neg :: matrix where
  "ex_matrix_neg = \<lparr>m_index = [''alpha'', ''m2''], m_columns = [''alpha'', ''m2''],
     loc = (\<lambda>a b. if a = b then 1 else - 1 / 2)\<rparr>"

definition ex_fs :: file_system where
  "ex_fs = [''theoretical.md'' \<mapsto> ''### alpha links to [[./applications.md#beta]] twice [[./applications.md#beta]] and to [[./applications.md#gamma]] ### beta is here too'',
            ''applications.md'' \<mapsto> ''### beta ### alpha'']"

definition ex_files :: "string list" where
  "ex_files = [''theoretical.md'', ''notes.md'', ''applications.md'']"

definition graph_within :: "string set \<Rightarrow> digraph \<Rightarrow> bool" where
  "graph_within K G =
     (set (nodes G) = K \<and> distinct (nodes G) \<and> set (edges G) \<subseteq> K \<times> K \<and> distinct (edges G))"

definition ex_corpus_registry :: node_info where
  "ex_corpus_registry = [(''alpha'', \<lparr>category = Theory, color = ''#a65628''\<rparr>),
                         (''beta'', \<lparr>category = Theory, color = ''#a65628''\<rparr>)]"

definition ex_loop_fs :: file_system where
  "ex_loop_fs = [''theoretical.md'' \<mapsto> ''### alpha refers to [[./theoretical.md#alpha]]'']"

definition ex_loop_registry :: node_info where
  "ex_loop_registry = [(''alpha'', \<lparr>category = Theory, color = ''#a65628''\<rparr>)]"

definition ex_registry_hub :: node_info where
  "ex_registry_hub = [(''m1'', \<lparr>category = Material, color = ''#377eb8''\<rparr>),
                      (''m2'', \<lparr>category = Application, color = ''#e41a1c''\<rparr>),
                      (''hub'', \<lparr>category = Method, color = ''#984ea3''\<rparr>)]"

definition ex_graph_hub :: digraph where
  "ex_graph_hub = \<lparr>nodes = [''m1'', ''m2'', ''hub''], node_attrs = map_of ex_registry_hub,
     edges = [(''m1'', ''hub''), (''m2'', ''hub'')],
     pagerank_attr = Map.empty, community_attr = Map.empty\<rparr>"

definition ex_registry_hub2 :: node_info where
  "ex_registry_hub2 = [(''alpha'', \<lparr>category = Theory, color = ''#a65628''\<rparr>),
                       (''m2'', \<lparr>category = Application, color = ''#e41a1c''\<rparr>),
                       (''hub'', \<lparr>category = Method, color = ''#984ea3''\<rparr>)]"

definition ex_graph_hub2 :: digraph where
  "ex_graph_hub2 = \<lparr>nodes = [''alpha'', ''m2'', ''hub''], node_attrs = map_of ex_registry_hub2,
     edges = [(''alpha'', ''hub''), (''m2'', ''hub'')],
     pagerank_attr = Map.empty, community_attr = Map.empty\<rparr>"

definition ex_fs2 :: file_system where
  "ex_fs2 = [''theoretical.md'' \<mapsto> ''### alpha cites [[./applications.md#beta]] and [[./applications.md#beta]] and [[./theoretical.md#alpha]]'',
             ''applications.md'' \<mapsto> ''### beta ### gamma cites [[./theoretical.md#alpha]] and [[./applications.md#gamma]]'']"

definition ex_files2 :: "string list" where
  "ex_files2 = [''theoretical.md'', ''applications.md'']"

definition ex_registry3 :: node_info where
  "ex_registry3 = [(''alpha'', \<lparr>category = Theory, color = ''#a65628''\<rparr>),
                   (''beta'', \<lparr>category = Application, color = ''#e41a1c''\<rparr>),
                   (''gamma'', \<lparr>category = Application, color = ''#e41a1c''\<rparr>)]"

section \<open>Properties\<close>

subsection \<open>The gap scorer\<close>

lemma collect_Inr_set:
  "collect f xs = Inr ys \<Longrightarrow> set ys = {y. \<exists>x\<in>set xs. f x = Inr (Some y)}"
proof (induction xs arbitrary: ys)
  case Nil
  then show ?case by simp
next
  case (Cons x xs)
  then show ?case
    by (auto split: sum.splits option.splits)
qed

lemma collect_total:
  "(\<And>x. x \<in> set xs \<Longrightarrow> \<exists>r. f x = Inr r) \<Longrightarrow> \<exists>ys. collect f xs = Inr ys"
proof (induction xs)
  case Nil
  then show ?case by simp
next
  case (Cons x xs)
  then obtain r where "f x = Inr r" by (meson list.set_intros(1))
  moreover from Cons obtain ys where "collect f xs = Inr ys" by (meson list.set_intros(2))
  ultimately show ?case by simp
qed

lemma get_nodes_nodes_by_cat:
  "get_nodes (nodes_by_cat ni G) cat =
     map fst (filter (\<lambda>(n, d). category d = cat \<and> has_node G n) ni)"
  by (cases cat) (simp_all add: get_nodes_def nodes_by_cat_def NODE_CATEGORIES_def)

lemma combinations2_CATEGORY_ORDER_irrefl:
  "(c, c) \<notin> set (combinations2 CATEGORY_ORDER)"
  by (cases c) (simp_all add: CATEGORY_ORDER_def)

lemma combinations2_CATEGORY_ORDER_asym:
  "(c1, c2) \<in> set (combinations2 CATEGORY_ORDER) \<Longrightarrow> (c2, c1) \<notin> set (combinations2 CATEGORY_ORDER)"
  by (cases c1; cases c2) (simp_all add: CATEGORY_ORDER_def)

lemma combinations2_CATEGORY_ORDER_total:
  "c1 \<noteq> c2 \<Longrightarrow> (c1, c2) \<in> set (combinations2 CATEGORY_ORDER) \<or> (c2, c1) \<in> set (combinations2 CATEGORY_ORDER)"
  by (cases c1; cases c2) (simp_all add: CATEGORY_ORDER_def)

lemma candidate_pairs_iff:
  "(u, v) \<in> set (candidate_pairs ni G) \<longleftrightarrow>
     (\<exists>du dv. (u, du) \<in> set ni \<and> (v, dv) \<in> set ni \<and> has_node G u \<and> has_node G v \<and>
        (category du, category dv) \<in> set (combinations2 CATEGORY_ORDER))"
  unfolding candidate_pairs_def Let_def get_nodes_nodes_by_cat
  by (auto simp: image_iff) (force)+

lemma topo_score_card:
  "topo_score G u v = card (set (successors G u) \<inter> set (successors G v))"
proof -
  let ?xs = "filter (\<lambda>x. x \<in> set (successors G v)) (remdups (successors G u))"
  have "distinct ?xs" by simp
  then have "card (set ?xs) = length ?xs" by (rule distinct_card)
  moreover have "set ?xs = set (successors G u) \<inter> set (successors G v)" by auto
  ultimately show ?thesis by (simp add: topo_score_def)
qed

lemma score_pair_no_error:
  assumes "u \<in> fst ` set ni" "v \<in> fst ` set ni"
  shows "\<exists>r. score_pair G M ni (u, v) = Inr r"
proof -
  from assms obtain du dv where "map_of ni u = Some du" "map_of ni v = Some dv"
    by (metis domD dom_map_of_conv_image_fst)
  then show ?thesis
    by (simp add: category_of_def Let_def)
qed

lemma score_pair_nodes:
  "score_pair G M ni p = Inr (Some r) \<Longrightarrow> p = (Source_Node r, Target_Node r)"
  by (cases p) (auto simp: Let_def split: if_splits sum.splits)

lemma candidate_pairs_keys:
  "p \<in> set (candidate_pairs ni G) \<Longrightarrow> fst p \<in> fst ` set ni \<and> snd p \<in> fst ` set ni"
  by (cases p) (force simp: candidate_pairs_iff)

lemma collect_score_pair_total:
  "\<exists>ys. collect (score_pair G M ni) (candidate_pairs ni G) = Inr ys"
proof (rule collect_total)
  fix x assume "x \<in> set (candidate_pairs ni G)"
  then have "fst x \<in> fst ` set ni" "snd x \<in> fst ` set ni"
    using candidate_pairs_keys by blast+
  then show "\<exists>r. score_pair G M ni x = Inr r"
    using score_pair_no_error [of "fst x" ni "snd x" G M] by simp
qed

lemma analyze_gaps_total:
  "\<exists>res. analyze_probabilistic_knowledge_gaps G M ni = Inr res"
proof -
  obtain ys where "collect (score_pair G M ni) (candidate_pairs ni G) = Inr ys"
    using collect_score_pair_total by blast
  then show ?thesis by (simp add: analyze_probabilistic_knowledge_gaps_def)
qed

lemma analyze_gaps_rows:
  assumes "number_of_nodes G \<noteq> 0" "\<not> df_empty M"
    and "analyze_probabilistic_knowledge_gaps G M ni = Inr res"
  shows "set (gap_rows res) =
           {r. \<exists>p\<in>set (candidate_pairs ni G). score_pair G M ni p = Inr (Some r)}"
proof -
  obtain ys where ys: "collect (score_pair G M ni) (candidate_pairs ni G) = Inr ys"
    using collect_score_pair_total by blast
  have "set (gap_rows res) = set ys"
    using assms ys
    by (auto simp: analyze_probabilistic_knowledge_gaps_def gap_rows_def sort_gaps_def
        split: if_splits)
  then show ?thesis using collect_Inr_set [OF ys] by simp
qed

lemma score_pair_candidate:
  assumes dist: "distinct (map fst ni)"
    and u: "(u, du) \<in> set ni" and v: "(v, dv) \<in> set ni"
    and nodes: "has_node G u" "has_node G v"
    and cats: "category du \<noteq> category dv"
    and unlinked: "\<not> has_edge G u v" "\<not> has_edge G v u"
  shows "score_pair G M ni (u, v) =
     (let topo = topo_score G u v; cooc = cooc_score M u v;
          bonus = bridge_bonus (category du) (category dv);
          strength = predicted_link_strength topo cooc bonus
      in if 1 < strength
         then Inr (Some \<lparr>Source_Category = category du, Source_Node = u,
                 Target_Category = category dv, Target_Node = v,
                 Topological_Score = topo, Cooccurrence_Score = round3 cooc,
                 Bridge_Bonus = bonus, Predicted_Link_Strength = round3 strength\<rparr>)
         else Inr None)"
proof -
  have mu: "map_of ni u = Some du" and mv: "map_of ni v = Some dv"
    using dist u v by simp_all
  have "u \<noteq> v" using mu mv cats by auto
  then show ?thesis
    using mu mv nodes unlinked by (simp add: category_of_def Let_def)
qed

lemma bridge_bonus_sets:
  "bridge_bonus cu cv =
     (if {cu, cv} = {Theory, Application} then 1.5
      else if {cu, cv} = {Material, Application} then 1 else 0)"
  by (cases cu; cases cv) (simp_all add: bridge_bonus_def doubleton_eq_iff)

text \<open>The scorer of the first part is the floating-point one at exact arithmetic.\<close>

lemma score_pair_fl_exact: "score_pair_fl exact_arith G M ni p = score_pair G M ni p"
  by (cases p)
    (simp add: exact_arith_def predicted_link_strength_fl_def predicted_link_strength_def
      Let_def split: sum.splits)

lemma analyze_gaps_fl_exact:
  "analyze_probabilistic_knowledge_gaps_fl exact_arith G M ni =
     analyze_probabilistic_knowledge_gaps G M ni"
proof -
  have "score_pair_fl exact_arith G M ni = score_pair G M ni"
    by (rule ext) (rule score_pair_fl_exact)
  then show ?thesis
    by (simp add: analyze_probabilistic_knowledge_gaps_fl_def
        analyze_probabilistic_knowledge_gaps_def)
qed

lemma score_pair_fl_no_error:
  assumes "u \<in> fst ` set ni" "v \<in> fst ` set ni"
  shows "\<exists>r. score_pair_fl A G M ni (u, v) = Inr r"
proof -
  from assms obtain du dv where "map_of ni u = Some du" "map_of ni v = Some dv"
    by (metis domD dom_map_of_conv_image_fst)
  then show ?thesis
    by (simp add: category_of_def Let_def)
qed

lemma score_pair_fl_nodes:
  "score_pair_fl A G M ni p = Inr (Some r) \<Longrightarrow> p = (Source_Node r, Target_Node r)"
  by (cases p) (auto simp: Let_def split: if_splits sum.splits)

lemma collect_score_pair_fl_total:
  "\<exists>ys. collect (score_pair_fl A G M ni) (candidate_pairs ni G) = Inr ys"
proof (rule collect_total)
  fix x assume "x \<in> set (candidate_pairs ni G)"
  then have "fst x \<in> fst ` set ni" "snd x \<in> fst ` set ni"
    using candidate_pairs_keys by blast+
  then show "\<exists>r. score_pair_fl A G M ni x = Inr r"
    using score_pair_fl_no_error [of "fst x" ni "snd x" A G M] by simp
qed

lemma analyze_gaps_fl_total:
  "\<exists>res. analyze_probabilistic_knowledge_gaps_fl A G M ni = Inr res"
proof -
  obtain ys where "collect (score_pair_fl A G M ni) (candidate_pairs ni G) = Inr ys"
    using collect_score_pair_fl_total by blast
  then show ?thesis by (simp add: analyze_probabilistic_knowledge_gaps_fl_def)
qed

lemma analyze_gaps_fl_rows:
  assumes "number_of_nodes G \<noteq> 0" "\<not> df_empty M"
    and "analyze_probabilistic_knowledge_gaps_fl A G M ni = Inr res"
  shows "set (gap_rows res) =
           {r. \<exists>p\<in>set (candidate_pairs ni G). score_pair_fl A G M ni p = Inr (Some r)}"
proof -
  obtain ys where ys: "collect (score_pair_fl A G M ni) (candidate_pairs ni G) = Inr ys"
    using collect_score_pair_fl_total by blast
  have "set (gap_rows res) = set ys"
    using assms ys
    by (auto simp: analyze_probabilistic_knowledge_gaps_fl_def gap_rows_def sort_gaps_def
        split: if_splits)
  then show ?thesis using collect_Inr_set [OF ys] by simp
qed

lemma score_pair_fl_candidate:
  assumes dist: "distinct (map fst ni)"
    and u: "(u, du) \<in> set ni" and v: "(v, dv) \<in> set ni"
    and nodes: "has_node G u" "has_node G v"
    and cats: "category du \<noteq> category dv"
    and unlinked: "\<not> has_edge G u v" "\<not> has_edge G v u"
  shows "score_pair_fl A G M ni (u, v) =
     (let topo = topo_score G u v; cooc = cooc_score M u v;
          bonus = bridge_bonus (category du) (category dv);
          strength = predicted_link_strength_fl A topo cooc bonus
      in if 1 < strength
         then Inr (Some \<lparr>Source_Category = category du, Source_Node = u,
                 Target_Category = category dv, Target_Node = v,
                 Topological_Score = topo, Cooccurrence_Score = fl_round3 A cooc,
                 Bridge_Bonus = bonus, Predicted_Link_Strength = fl_round3 A strength\<rparr>)
         else Inr None)"
proof -
  have mu: "map_of ni u = Some du" and mv: "map_of ni v = Some dv"
    using dist u v by simp_all
  have "u \<noteq> v" using mu mv cats by auto
  then show ?thesis
    using mu mv nodes unlinked by (simp add: category_of_def Let_def)
qed

text \<open>
  Claim C1, amended. Take two concepts \<open>u\<close>, \<open>v\<close> of the registry that are nodes of the graph, of
  different categories and with no link in either direction; \<open>u\<close> is the one whose category
  comes first in \<open>CATEGORY_ORDER\<close> (lemma \<open>combinations2_CATEGORY_ORDER_total\<close>: two
  different categories are ordered one way round). When the co-occurrence matrix is not
  empty, the scorer returns without error, whatever the floating-point arithmetic, and the
  pair is a row of the gap list exactly when the strength it computes,
  2 * (number of common successors) + 1 * max(0, matrix value) + bridge bonus with the sums
  and products of that arithmetic, is strictly above 1; the matrix value is the entry
  \<open>(u, v)\<close>, and 0 where \<open>u\<close> is no row label or \<open>v\<close> no column label; the bonus is 1.5 for
  Theory/Application, 1.0 for Material/Application and 0 otherwise. The row holds the number
  of common successors, the bonus, and the computed strength rounded to three decimals; the
  pair is never listed the other way round. With an empty matrix the scorer lists nothing.
\<close>

theorem gap_candidate_iff_computed_strength:
  fixes A :: float_arith
  assumes dist: "distinct (map fst ni)"
    and u: "(u, du) \<in> set ni" and v: "(v, dv) \<in> set ni"
    and nodes: "has_node G u" "has_node G v"
    and cats: "(category du, category dv) \<in> set (combinations2 CATEGORY_ORDER)"
    and unlinked: "\<not> has_edge G u v" "\<not> has_edge G v u"
    and nonempty: "\<not> df_empty M"
  defines "common \<equiv> card (set (successors G u) \<inter> set (successors G v))"
    and "entry \<equiv> (if u \<in> set (m_index M) \<and> v \<in> set (m_columns M) then loc M u v else 0)"
    and "bonus \<equiv> (if {category du, category dv} = {Theory, Application} then 1.5
                   else if {category du, category dv} = {Material, Application} then 1 else (0::real))"
  defines "strength \<equiv>
      fl_add A (fl_add A (fl_mul A 2 (real common)) (fl_mul A 1 (max 0 entry))) bonus"
  shows "\<exists>res. analyze_probabilistic_knowledge_gaps_fl A G M ni = Inr res \<and>
           ((\<exists>r\<in>set (gap_rows res). Source_Node r = u \<and> Target_Node r = v)
             \<longleftrightarrow> 1 < strength) \<and>
           (\<forall>r\<in>set (gap_rows res). \<not> (Source_Node r = v \<and> Target_Node r = u)) \<and>
           (\<forall>r\<in>set (gap_rows res). Source_Node r = u \<and> Target_Node r = v \<longrightarrow>
               Topological_Score r = common \<and> Bridge_Bonus r = bonus \<and>
               Predicted_Link_Strength r = fl_round3 A strength)"
proof -
  obtain res where res: "analyze_probabilistic_knowledge_gaps_fl A G M ni = Inr res"
    using analyze_gaps_fl_total by blast
  have ne: "number_of_nodes G \<noteq> 0"
    using nodes by (auto simp: number_of_nodes_def has_node_def)
  note rows = analyze_gaps_fl_rows [OF ne nonempty res]
  have diff: "category du \<noteq> category dv"
    using cats combinations2_CATEGORY_ORDER_irrefl by metis
  have cand: "(u, v) \<in> set (candidate_pairs ni G)"
    using u v nodes cats by (auto simp: candidate_pairs_iff)
  have not_cand: "(v, u) \<notin> set (candidate_pairs ni G)"
  proof
    assume "(v, u) \<in> set (candidate_pairs ni G)"
    then obtain dv' du' where "(v, dv') \<in> set ni" "(u, du') \<in> set ni"
      and c: "(category dv', category du') \<in> set (combinations2 CATEGORY_ORDER)"
      by (auto simp: candidate_pairs_iff)
    then have "dv' = dv" "du' = du"
      using dist u v by (meson eq_key_imp_eq_value)+
    with c cats show False using combinations2_CATEGORY_ORDER_asym by blast
  qed
  have str: "predicted_link_strength_fl A (topo_score G u v) (cooc_score M u v)
               (bridge_bonus (category du) (category dv)) = strength"
    by (simp add: predicted_link_strength_fl_def cooc_score_def topo_score_card
        bridge_bonus_sets strength_def common_def bonus_def entry_def)
  define R where "R = \<lparr>Source_Category = category du, Source_Node = u,
        Target_Category = category dv, Target_Node = v,
        Topological_Score = common, Cooccurrence_Score = fl_round3 A (cooc_score M u v),
        Bridge_Bonus = bonus, Predicted_Link_Strength = fl_round3 A strength\<rparr>"
  have sp: "score_pair_fl A G M ni (u, v) = (if 1 < strength then Inr (Some R) else Inr None)"
    using score_pair_fl_candidate [OF dist u v nodes diff unlinked, of A M]
    unfolding Let_def str R_def
    by (simp only: topo_score_card bridge_bonus_sets common_def bonus_def)
  have R: "Source_Node R = u" "Target_Node R = v" "Topological_Score R = common"
    "Bridge_Bonus R = bonus" "Predicted_Link_Strength R = fl_round3 A strength"
    by (simp_all add: R_def)
  have fwd: "\<And>r. r \<in> set (gap_rows res) \<Longrightarrow> Source_Node r = u \<and> Target_Node r = v \<Longrightarrow>
      1 < strength \<and> Topological_Score r = common \<and> Bridge_Bonus r = bonus \<and>
      Predicted_Link_Strength r = fl_round3 A strength"
  proof -
    fix r assume "r \<in> set (gap_rows res)" and uv: "Source_Node r = u \<and> Target_Node r = v"
    then obtain p where "p \<in> set (candidate_pairs ni G)"
      and p: "score_pair_fl A G M ni p = Inr (Some r)"
      using rows by auto
    with uv have "score_pair_fl A G M ni (u, v) = Inr (Some r)"
      using score_pair_fl_nodes by fastforce
    with sp have "1 < strength \<and> r = R"
      by (cases "1 < strength") simp_all
    with R show "1 < strength \<and> Topological_Score r = common \<and> Bridge_Bonus r = bonus \<and>
      Predicted_Link_Strength r = fl_round3 A strength"
      by simp
  qed
  have no_rev: "\<And>r. r \<in> set (gap_rows res) \<Longrightarrow> \<not> (Source_Node r = v \<and> Target_Node r = u)"
  proof
    fix r assume "r \<in> set (gap_rows res)" and vu: "Source_Node r = v \<and> Target_Node r = u"
    then obtain p where pc: "p \<in> set (candidate_pairs ni G)"
      and p: "score_pair_fl A G M ni p = Inr (Some r)"
      using rows by auto
    with vu have "p = (v, u)" using score_pair_fl_nodes by fastforce
    with pc not_cand show False by simp
  qed
  have bwd: "1 < strength \<Longrightarrow> \<exists>r\<in>set (gap_rows res). Source_Node r = u \<and> Target_Node r = v"
  proof -
    assume "1 < strength"
    with sp have "score_pair_fl A G M ni (u, v) = Inr (Some R)" by simp
    with cand rows have "R \<in> set (gap_rows res)" by blast
    with R show ?thesis by blast
  qed
  show ?thesis
    using res fwd no_rev bwd by blast
qed

text \<open>
  Material \<open>m1\<close> and Application \<open>m2\<close>, unlinked, both linking to \<open>hub\<close>, co-occurrence
  0.5: one common successor, bonus 1, strength 2 + 0.5 + 1 = 3.5, and the pair is listed.
\<close>

theorem gap_candidate_iff_computed_strength_witness:
  "\<exists>res. analyze_probabilistic_knowledge_gaps_fl exact_arith ex_graph_hub ex_matrix ex_registry_hub
            = Inr res \<and>
     (\<exists>r\<in>set (gap_rows res). Source_Node r = ''m1'' \<and> Target_Node r = ''m2'' \<and>
        Topological_Score r = 1 \<and> Bridge_Bonus r = 1 \<and> Predicted_Link_Strength r = 7 / 2)"
proof -
  have h: "distinct (map fst ex_registry_hub)"
    "(''m1'', \<lparr>category = Material, color = ''#377eb8''\<rparr>) \<in> set ex_registry_hub"
    "(''m2'', \<lparr>category = Application, color = ''#e41a1c''\<rparr>) \<in> set ex_registry_hub"
    "has_node ex_graph_hub ''m1''" "has_node ex_graph_hub ''m2''"
    "(category \<lparr>category = Material, color = ''#377eb8''\<rparr>,
      category \<lparr>category = Application, color = ''#e41a1c''\<rparr>) \<in> set (combinations2 CATEGORY_ORDER)"
    "\<not> has_edge ex_graph_hub ''m1'' ''m2''" "\<not> has_edge ex_graph_hub ''m2'' ''m1''"
    "\<not> df_empty ex_matrix"
    by (simp_all add: ex_registry_hub_def ex_graph_hub_def ex_matrix_def has_node_def has_edge_def
        CATEGORY_ORDER_def df_empty_def)
  have s: "successors ex_graph_hub ''m1'' = [''hub'']" "successors ex_graph_hub ''m2'' = [''hub'']"
    "loc ex_matrix ''m1'' ''m2'' = 1 / 2"
    "''m1'' \<in> set (m_index ex_matrix)" "''m2'' \<in> set (m_columns ex_matrix)"
    by (simp_all add: successors_def ex_graph_hub_def ex_matrix_def)
  have r: "round3 (7 / 2) = 7 / 2" by (simp add: round3_def)
  from gap_candidate_iff_computed_strength [OF h, of exact_arith]
  show ?thesis
    by (auto simp: s r doubleton_eq_iff exact_arith_def)
qed

text \<open>
  Theory \<open>alpha\<close> and Application \<open>m2\<close>, unlinked, both linking to \<open>hub\<close>, and an empty
  matrix: one common successor and bonus 1.5, so that 2 * 1 + max(0, x) + 1.5 is above 1
  whatever value \<open>x\<close> stands for the matrix; the scorer returns \<open>None\<close>.
\<close>

theorem gap_candidate_empty_matrix_counterexample:
  "(''alpha'', ''m2'') \<in> set (candidate_pairs ex_registry_hub2 ex_graph_hub2) \<and>
   \<not> has_edge ex_graph_hub2 ''alpha'' ''m2'' \<and> \<not> has_edge ex_graph_hub2 ''m2'' ''alpha'' \<and>
   card (set (successors ex_graph_hub2 ''alpha'') \<inter> set (successors ex_graph_hub2 ''m2'')) = 1 \<and>
   bridge_bonus Theory Application = 3 / 2 \<and>
   1 < 2 * real (card (set (successors ex_graph_hub2 ''alpha'') \<inter>
                       set (successors ex_graph_hub2 ''m2'')))
       + 1 * max 0 (loc ex_empty_matrix ''alpha'' ''m2'') + bridge_bonus Theory Application \<and>
   df_empty ex_empty_matrix \<and>
   analyze_probabilistic_knowledge_gaps_fl exact_arith ex_graph_hub2 ex_empty_matrix ex_registry_hub2
     = Inr None"
  by (simp add: analyze_probabilistic_knowledge_gaps_fl_def ex_graph_hub2_def ex_empty_matrix_def
      ex_registry_hub2_def df_empty_def candidate_pairs_def nodes_by_cat_def
      NODE_CATEGORIES_def CATEGORY_ORDER_def get_nodes_def has_node_def has_edge_def
      successors_def bridge_bonus_def)

text \<open>
  Claim C3. Every row of the gap list has no link between its source and its target in
  either direction, carries the registry's categories of the two nodes, and these two
  categories differ.
\<close>

theorem gap_records_unlinked_and_cross_category:
  assumes dist: "distinct (map fst ni)"
    and res: "analyze_probabilistic_knowledge_gaps G M ni = Inr res"
    and r: "r \<in> set (gap_rows res)"
  shows "\<not> has_edge G (Source_Node r) (Target_Node r) \<and>
         \<not> has_edge G (Target_Node r) (Source_Node r) \<and>
         category_of ni (Source_Node r) = Inr (Source_Category r) \<and>
         category_of ni (Target_Node r) = Inr (Target_Category r) \<and>
         Source_Category r \<noteq> Target_Category r"
proof -
  have ne: "number_of_nodes G \<noteq> 0" "\<not> df_empty M"
    using res r
    by (auto simp: analyze_probabilistic_knowledge_gaps_def gap_rows_def split: if_splits)
  from analyze_gaps_rows [OF ne res] r
  obtain p where pc: "p \<in> set (candidate_pairs ni G)" and p: "score_pair G M ni p = Inr (Some r)"
    by auto
  define u v where "u = Source_Node r" and "v = Target_Node r"
  have puv: "p = (u, v)" using score_pair_nodes [OF p] by (simp add: u_def v_def)
  from pc obtain du dv where d: "(u, du) \<in> set ni" "(v, dv) \<in> set ni"
    and nodes: "has_node G u" "has_node G v"
    and c: "(category du, category dv) \<in> set (combinations2 CATEGORY_ORDER)"
    unfolding puv candidate_pairs_iff by blast
  have m: "map_of ni u = Some du" "map_of ni v = Some dv"
    using dist d by simp_all
  have diff: "category du \<noteq> category dv"
    using c combinations2_CATEGORY_ORDER_irrefl by metis
  have "\<not> has_edge G u v \<and> \<not> has_edge G v u \<and>
        Source_Category r = category du \<and> Target_Category r = category dv"
    using p m unfolding puv
    by (auto simp: category_of_def Let_def split: if_splits)
  then show ?thesis
    using m diff by (simp add: category_of_def u_def v_def)
qed

theorem gap_records_unlinked_and_cross_category_witness:
  "\<not> has_edge ex_graph ''m1'' ''m2'' \<and> \<not> has_edge ex_graph ''m2'' ''m1'' \<and>
   category_of ex_registry ''m1'' = Inr Material \<and>
   category_of ex_registry ''m2'' = Inr Application \<and> Material \<noteq> Application"
proof -
  define r where "r = \<lparr>Source_Category = Material, Source_Node = ''m1'',
      Target_Category = Application, Target_Node = ''m2'',
      Topological_Score = 0, Cooccurrence_Score = 1 / 2,
      Bridge_Bonus = 1, Predicted_Link_Strength = 3 / 2\<rparr>"
  have res: "analyze_probabilistic_knowledge_gaps ex_graph ex_matrix ex_registry = Inr (Some [r])"
    by (simp add: analyze_probabilistic_knowledge_gaps_def ex_graph_def ex_matrix_def
        ex_registry_def number_of_nodes_def df_empty_def candidate_pairs_def nodes_by_cat_def
        NODE_CATEGORIES_def CATEGORY_ORDER_def get_nodes_def has_node_def has_edge_def
        category_of_def topo_score_def successors_def cooc_score_def bridge_bonus_def
        predicted_link_strength_def round3_def sort_gaps_def Let_def r_def)
  have dist: "distinct (map fst ex_registry)" by (simp add: ex_registry_def)
  have mem: "r \<in> set (gap_rows (Some [r]))" by (simp add: gap_rows_def)
  from gap_records_unlinked_and_cross_category [OF dist res mem]
  show ?thesis by (simp add: r_def)
qed

text \<open>
  Claim C10, amended. When the co-occurrence matrix is not empty and \<open>u\<close> is no row label
  or \<open>v\<close> no column label of it, the co-occurrence component of the pair is 0, nothing is
  raised, and the pair is listed exactly when 2 * (common successors) + bridge bonus is
  strictly above 1. With an empty matrix the first guard of the scorer returns before any
  pair is scored.
\<close>

theorem missing_entry_scores_zero_when_matrix_nonempty:
  assumes dist: "distinct (map fst ni)"
    and u: "(u, du) \<in> set ni" and v: "(v, dv) \<in> set ni"
    and nodes: "has_node G u" "has_node G v"
    and cats: "(category du, category dv) \<in> set (combinations2 CATEGORY_ORDER)"
    and unlinked: "\<not> has_edge G u v" "\<not> has_edge G v u"
    and nonempty: "\<not> df_empty M"
    and missing: "u \<notin> set (m_index M) \<or> v \<notin> set (m_columns M)"
  defines "strength \<equiv> 2 * real (topo_score G u v) + bridge_bonus (category du) (category dv)"
  shows "\<exists>res. analyze_probabilistic_knowledge_gaps G M ni = Inr res \<and>
           ((\<exists>r\<in>set (gap_rows res). Source_Node r = u \<and> Target_Node r = v)
             \<longleftrightarrow> 1 < strength) \<and>
           (\<forall>r\<in>set (gap_rows res). Source_Node r = u \<and> Target_Node r = v \<longrightarrow>
               Cooccurrence_Score r = 0 \<and> Predicted_Link_Strength r = round3 strength)"
proof -
  obtain res where res: "analyze_probabilistic_knowledge_gaps G M ni = Inr res"
    using analyze_gaps_total by blast
  have ne: "number_of_nodes G \<noteq> 0"
    using nodes by (auto simp: number_of_nodes_def has_node_def)
  note rows = analyze_gaps_rows [OF ne nonempty res]
  have diff: "category du \<noteq> category dv"
    using cats combinations2_CATEGORY_ORDER_irrefl by metis
  have cand: "(u, v) \<in> set (candidate_pairs ni G)"
    using u v nodes cats by (auto simp: candidate_pairs_iff)
  have cz: "cooc_score M u v = 0"
    using missing by (auto simp: cooc_score_def)
  have str: "predicted_link_strength (topo_score G u v) 0
               (bridge_bonus (category du) (category dv)) = strength"
    by (simp add: predicted_link_strength_def strength_def)
  define R where "R = \<lparr>Source_Category = category du, Source_Node = u,
        Target_Category = category dv, Target_Node = v,
        Topological_Score = topo_score G u v, Cooccurrence_Score = round3 0,
        Bridge_Bonus = bridge_bonus (category du) (category dv),
        Predicted_Link_Strength = round3 strength\<rparr>"
  have sp: "score_pair G M ni (u, v) = (if 1 < strength then Inr (Some R) else Inr None)"
    using score_pair_candidate [OF dist u v nodes diff unlinked, of M]
    unfolding Let_def cz str R_def by simp
  have R: "Source_Node R = u" "Target_Node R = v" "Cooccurrence_Score R = 0"
    "Predicted_Link_Strength R = round3 strength"
    by (simp_all add: R_def round3_def)
  have fwd: "\<And>r. r \<in> set (gap_rows res) \<Longrightarrow> Source_Node r = u \<and> Target_Node r = v \<Longrightarrow>
      1 < strength \<and> Cooccurrence_Score r = 0 \<and> Predicted_Link_Strength r = round3 strength"
  proof -
    fix r assume "r \<in> set (gap_rows res)" and uv: "Source_Node r = u \<and> Target_Node r = v"
    then obtain p where "p \<in> set (candidate_pairs ni G)" and p: "score_pair G M ni p = Inr (Some r)"
      using rows by auto
    with uv have "score_pair G M ni (u, v) = Inr (Some r)"
      using score_pair_nodes by fastforce
    with sp have "1 < strength \<and> r = R"
      by (cases "1 < strength") simp_all
    with R show "1 < strength \<and> Cooccurrence_Score r = 0 \<and>
      Predicted_Link_Strength r = round3 strength"
      by simp
  qed
  have bwd: "1 < strength \<Longrightarrow> \<exists>r\<in>set (gap_rows res). Source_Node r = u \<and> Target_Node r = v"
  proof -
    assume "1 < strength"
    with sp have "score_pair G M ni (u, v) = Inr (Some R)" by simp
    with cand rows have "R \<in> set (gap_rows res)" by blast
    with R show ?thesis by blast
  qed
  show ?thesis
    using res fwd bwd by blast
qed

theorem missing_entry_scores_zero_when_matrix_nonempty_witness:
  "\<exists>res. analyze_probabilistic_knowledge_gaps ex_graph2 ex_matrix_other ex_registry2 = Inr res \<and>
     (\<exists>r\<in>set (gap_rows res). Source_Node r = ''alpha'' \<and> Target_Node r = ''m2'' \<and>
        Cooccurrence_Score r = 0)"
proof -
  have h: "distinct (map fst ex_registry2)"
    "(''alpha'', \<lparr>category = Theory, color = ''#a65628''\<rparr>) \<in> set ex_registry2"
    "(''m2'', \<lparr>category = Application, color = ''#e41a1c''\<rparr>) \<in> set ex_registry2"
    "has_node ex_graph2 ''alpha''" "has_node ex_graph2 ''m2''"
    "(category \<lparr>category = Theory, color = ''#a65628''\<rparr>,
      category \<lparr>category = Application, color = ''#e41a1c''\<rparr>) \<in> set (combinations2 CATEGORY_ORDER)"
    "\<not> has_edge ex_graph2 ''alpha'' ''m2''" "\<not> has_edge ex_graph2 ''m2'' ''alpha''"
    "\<not> df_empty ex_matrix_other"
    "''alpha'' \<notin> set (m_index ex_matrix_other) \<or> ''m2'' \<notin> set (m_columns ex_matrix_other)"
    by (simp_all add: ex_registry2_def ex_graph2_def ex_matrix_other_def has_node_def has_edge_def
        CATEGORY_ORDER_def df_empty_def)
  have s: "topo_score ex_graph2 ''alpha'' ''m2'' = 0"
    by (simp add: topo_score_def successors_def ex_graph2_def)
  from missing_entry_scores_zero_when_matrix_nonempty [OF h]
  show ?thesis
    by (auto simp: s bridge_bonus_def)
qed

text \<open>
  With an empty matrix the Theory/Application pair \<open>(alpha, m2)\<close> has no matrix entry, is
  unlinked, and would score 1.5 with a co-occurrence component of 0; the scorer returns
  \<open>None\<close> all the same.
\<close>

theorem missing_entry_empty_matrix_counterexample:
  "''alpha'' \<notin> set (m_index ex_empty_matrix) \<and>
   (''alpha'', ''m2'') \<in> set (candidate_pairs ex_registry2 ex_graph2) \<and>
   \<not> has_edge ex_graph2 ''alpha'' ''m2'' \<and> \<not> has_edge ex_graph2 ''m2'' ''alpha'' \<and>
   1 < predicted_link_strength (topo_score ex_graph2 ''alpha'' ''m2'') 0
         (bridge_bonus Theory Application) \<and>
   analyze_probabilistic_knowledge_gaps ex_graph2 ex_empty_matrix ex_registry2 = Inr None"
  by (simp add: analyze_probabilistic_knowledge_gaps_def ex_graph2_def ex_empty_matrix_def
      ex_registry2_def df_empty_def candidate_pairs_def nodes_by_cat_def
      NODE_CATEGORIES_def CATEGORY_ORDER_def get_nodes_def has_node_def has_edge_def
      topo_score_def successors_def bridge_bonus_def predicted_link_strength_def)

subsection \<open>The trajectory synthesizer\<close>

lemma wedge_weight_None_iff: "wedge_weight g u v = None \<longleftrightarrow> \<not> has_wedge g u v"
proof -
  have "wedge_weight g u v = None \<longleftrightarrow> map_of g (u, v) = None \<and> map_of g (v, u) = None"
    by (simp add: wedge_weight_def split: option.splits)
  then show ?thesis
    by (simp add: has_wedge_def map_of_eq_None_iff)
qed

lemma wedge_weight_in_graph: "wedge_weight g u v = Some w \<Longrightarrow> \<exists>e. (e, w) \<in> set g"
  by (auto simp: wedge_weight_def split: option.splits dest: map_of_SomeD)

lemma wneighbors_has_wedge: "c \<in> set (wneighbors g u) \<Longrightarrow> has_wedge g u c"
  by (force simp: wneighbors_def has_wedge_def split: if_splits)

lemma add_wedge_weights:
  assumes "\<forall>(e, w)\<in>set g. m < w" "m < w0"
  shows "\<forall>(e, w)\<in>set (add_wedge g u v w0). m < w"
  using assms by (auto simp: add_wedge_def split: if_splits)

lemma fold_build_weights:
  "\<forall>(e, w)\<in>set g. m < w \<Longrightarrow>
   \<forall>(e, w)\<in>set (fold (\<lambda>(u, v) g.
        if u \<in> set (m_index M) \<and> v \<in> set (m_columns M) \<and> u \<noteq> v
        then (let score = loc M u v
              in if m < score then add_wedge g u v score else g)
        else g) ps g). m < w"
proof (induction ps arbitrary: g)
  case Nil
  then show ?case by simp
next
  case (Cons p ps)
  obtain u v where p: "p = (u, v)" by (cases p)
  show ?case
    unfolding p fold_simps
    by (rule Cons.IH) (use Cons.prems add_wedge_weights in \<open>auto simp: Let_def\<close>)
qed

lemma build_cooc_graph_weights:
  "(e, w) \<in> set (build_cooc_graph M m) \<Longrightarrow> m < w"
  using fold_build_weights [of "[]" m M "combinations2 (m_columns M)"]
  unfolding build_cooc_graph_def by auto

lemma path_steps_Cons2 [simp]: "path_steps (u # v # rest) = (u, v) # path_steps (v # rest)"
  by (simp add: path_steps_def)

lemma path_steps_single [simp]: "path_steps [u] = []" "path_steps [] = []"
  by (simp_all add: path_steps_def)

lemma path_steps_snoc: "xs \<noteq> [] \<Longrightarrow> path_steps (xs @ [c]) = path_steps xs @ [(last xs, c)]"
proof (induction xs)
  case Nil
  then show ?case by simp
next
  case (Cons x xs)
  then show ?case by (cases xs) (simp_all add: path_steps_def)
qed

lemma length_path_steps: "length (path_steps p) = length p - 1"
  by (simp add: path_steps_def)

lemma is_walk_snoc:
  "xs \<noteq> [] \<Longrightarrow> is_walk g xs \<Longrightarrow> has_wedge g (last xs) c \<Longrightarrow> is_walk g (xs @ [c])"
  by (simp add: is_walk_def path_steps_snoc)

lemma simple_paths_from_walk:
  assumes "visited \<noteq> []" "last visited = u" "is_walk g visited"
    and "p \<in> set (simple_paths_from g t k visited u)"
  shows "is_walk g p \<and> 2 \<le> length p \<and> last p = t \<and> hd p = hd visited"
  using assms
proof (induction k arbitrary: visited u)
  case 0
  then show ?case by simp
next
  case (Suc k)
  from Suc.prems(4) obtain c where c: "c \<in> set (wneighbors g u)" "c \<notin> set visited"
    and p: "(c = t \<and> p = visited @ [c]) \<or>
            (c \<noteq> t \<and> p \<in> set (simple_paths_from g t k (visited @ [c]) c))"
    by (auto split: if_splits)
  have w: "is_walk g (visited @ [c])"
    using Suc.prems(1-3) c(1) by (simp add: is_walk_snoc wneighbors_has_wedge)
  from p show ?case
  proof
    assume "c = t \<and> p = visited @ [c]"
    with w Suc.prems(1) show ?thesis
      by (cases visited) simp_all
  next
    assume a: "c \<noteq> t \<and> p \<in> set (simple_paths_from g t k (visited @ [c]) c)"
    have "is_walk g p \<and> 2 \<le> length p \<and> last p = t \<and> hd p = hd (visited @ [c])"
      by (rule Suc.IH [of "visited @ [c]" c]) (use a w in simp_all)
    with Suc.prems(1) show ?thesis by simp
  qed
qed

lemma all_simple_paths_walk:
  assumes "all_simple_paths g s t cutoff = Inr paths" "p \<in> set paths"
  shows "is_walk g p \<and> 2 \<le> length p \<and> last p = t \<and> hd p = s"
proof -
  from assms have "p \<in> set (simple_paths_from g t (nat cutoff) [s] s)"
    by (auto simp: all_simple_paths_def split: if_splits)
  from simple_paths_from_walk [OF _ _ _ this] show ?thesis
    by (simp add: is_walk_def)
qed

lemma list_index_CATEGORY_ORDER:
  "list_index CATEGORY_ORDER c = Some (category_position c)"
  by (cases c) (simp_all add: CATEGORY_ORDER_def category_position_def)

lemma hierarchical_step_spec:
  "hierarchical_step (get_category ni u) (get_category ni v) = spec_forward_step ni (u, v)"
  by (simp add: hierarchical_step_def spec_forward_step_def list_index_CATEGORY_ORDER
      split: option.splits)

lemma step_categories_Cons:
  "step_categories ni (u # p) =
     (case get_category ni u of None \<Rightarrow> {} | Some c \<Rightarrow> {c}) \<union> step_categories ni p"
  by (simp add: step_categories_def split: option.splits)

lemma step_categories_Nil [simp]: "step_categories ni [] = {}"
  by (simp add: step_categories_def)

lemma scan_path_distinct:
  "distinct (path_categories_set st) \<Longrightarrow> distinct (path_categories_set (scan_path g G ni p st))"
proof (induction g G ni p st rule: scan_path.induct)
  case (1 g G ni u v rest st)
  show ?case
  proof (cases "wedge_weight g u v")
    case None
    with "1.prems" show ?thesis by simp
  next
    case (Some wt)
    show ?thesis
      unfolding scan_path.simps Some option.case Let_def
      by (rule "1.IH" [OF Some refl refl]) (use "1.prems" in \<open>simp split: option.splits\<close>)
  qed
qed simp_all

lemma scan_path_walk:
  "is_walk g p \<Longrightarrow>
     valid_path (scan_path g G ni p st) = valid_path st \<and>
     path_cooc_scores (scan_path g G ni p st) = path_cooc_scores st @ spec_step_weights g p \<and>
     explicit_links_count (scan_path g G ni p st) =
       explicit_links_count st + spec_explicit_link_count G p \<and>
     hierarchical_score (scan_path g G ni p st) =
       hierarchical_score st + spec_hierarchy_score ni p \<and>
     set (path_categories_set (scan_path g G ni p st)) =
       set (path_categories_set st) \<union> step_categories ni (butlast p)"
proof (induction g G ni p st rule: scan_path.induct)
  case (1 g G ni u v rest st)
  from "1.prems" have e: "has_wedge g u v" and w: "is_walk g (v # rest)"
    by (simp_all add: is_walk_def)
  then obtain wt where wt: "wedge_weight g u v = Some wt"
    using wedge_weight_None_iff [of g u v] by (cases "wedge_weight g u v") simp_all
  note IH = "1.IH" [OF wt refl refl w]
  show ?case
    unfolding scan_path.simps wt option.case Let_def
    by (simp only: IH)
      (simp add: spec_step_weights_def spec_explicit_link_count_def spec_hierarchy_score_def
        wt hierarchical_step_spec step_categories_Cons split: option.splits)
qed (simp_all add: spec_step_weights_def spec_explicit_link_count_def spec_hierarchy_score_def)

lemma step_categories_append:
  "step_categories ni (xs @ ys) = step_categories ni xs \<union> step_categories ni ys"
  by (simp add: step_categories_def map_filter_def)

lemma score_path_walk:
  assumes walk: "is_walk g p" and len: "2 \<le> length p"
  shows "\<exists>r. score_path g G ni p = Inr (Some r) \<and> path_nodes r = p \<and>
           score r = spec_trajectory_score g G ni p \<and>
           avg_cooc_score r = round3 (spec_avg_cooccurrence g p) \<and>
           num_explicit_links r = spec_explicit_link_count G p \<and>
           hierarchical_flow_score r = spec_hierarchy_score ni p \<and>
           category_span_score r = spec_category_span_bonus ni p"
proof -
  define st where "st = scan_path g G ni p initial_scan_state"
  note sw = scan_path_walk [OF walk, of G ni initial_scan_state, folded st_def]
  have valid: "valid_path st" using sw by (simp add: initial_scan_state_def)
  have scores: "path_cooc_scores st = spec_step_weights g p"
    using sw by (simp add: initial_scan_state_def)
  have expl: "explicit_links_count st = spec_explicit_link_count G p"
    using sw by (simp add: initial_scan_state_def)
  have hier: "hierarchical_score st = spec_hierarchy_score ni p"
    using sw by (simp add: initial_scan_state_def)
  have cats: "set (path_categories_set st) = step_categories ni (butlast p)"
    using sw by (simp add: initial_scan_state_def)
  have dist: "distinct (path_categories_set st)"
    unfolding st_def by (rule scan_path_distinct) (simp add: initial_scan_state_def)
  from len have ne: "p \<noteq> []" by auto
  define cs where "cs = (case map_of ni (last p) of
                       None \<Rightarrow> path_categories_set st
                     | Some d \<Rightarrow> List.insert (category d) (path_categories_set st))"
  have "p = butlast p @ [last p]" using ne by simp
  then have "step_categories ni p = step_categories ni (butlast p) \<union> step_categories ni [last p]"
    using step_categories_append by metis
  then have cs_set: "set cs = step_categories ni p"
    using cats
    by (auto simp: cs_def step_categories_Cons get_category_def split: option.splits)
  have cs_dist: "distinct cs"
    using dist by (simp add: cs_def split: option.splits)
  have cs_len: "length cs = card (set (List.map_filter (get_category ni) p))"
    using cs_set cs_dist distinct_card [of cs] by (simp add: step_categories_def)
  have steps: "length (spec_step_weights g p) = length (path_steps p)"
    by (simp add: spec_step_weights_def)
  have nonempty: "spec_step_weights g p \<noteq> []"
    using len steps length_path_steps [of p] by (cases "spec_step_weights g p") simp_all
  have avg: "np_mean (spec_step_weights g p) = spec_avg_cooccurrence g p"
    by (simp add: np_mean_def spec_avg_cooccurrence_def steps)
  obtain x xs where p: "p = x # xs" using ne by (cases p) simp_all
  have body: "score_path g G ni p =
     (if \<not> valid_path st then Inr None
      else Inr (Some \<lparr>path_nodes = p,
        score = (if path_cooc_scores st \<noteq> [] then np_mean (path_cooc_scores st) else 0) * 10
                + real (explicit_links_count st) * 5 + real (hierarchical_score st) * 2
                + real (if 3 \<le> length cs then length cs else 0) * 1,
        path_str = join_arrow p, path_length = length p,
        avg_cooc_score =
          round3 (if path_cooc_scores st \<noteq> [] then np_mean (path_cooc_scores st) else 0),
        num_explicit_links = explicit_links_count st,
        hierarchical_flow_score = hierarchical_score st,
        category_span_score = (if 3 \<le> length cs then length cs else 0)\<rparr>))"
    unfolding score_path_def st_def cs_def Let_def
    by (simp only: p list.case)
  have "score_path g G ni p =
     Inr (Some \<lparr>path_nodes = p,
        score = spec_avg_cooccurrence g p * 10 + real (spec_explicit_link_count G p) * 5
                + real (spec_hierarchy_score ni p) * 2
                + real (if 3 \<le> length cs then length cs else 0) * 1,
        path_str = join_arrow p, path_length = length p,
        avg_cooc_score = round3 (spec_avg_cooccurrence g p),
        num_explicit_links = spec_explicit_link_count G p,
        hierarchical_flow_score = spec_hierarchy_score ni p,
        category_span_score = (if 3 \<le> length cs then length cs else 0)\<rparr>)"
    unfolding body
    by (simp only: valid scores nonempty avg expl hier not_True_eq_False if_False
        not_False_eq_True if_True)
  then show ?thesis
    by (simp add: spec_trajectory_score_def spec_category_span_bonus_def cs_len Let_def)
qed

lemma walk_weights_above_threshold:
  assumes "is_walk (build_cooc_graph M m) p"
    and "w \<in> set (spec_step_weights (build_cooc_graph M m) p)"
  shows "m < w"
proof -
  let ?g = "build_cooc_graph M m"
  from assms(2) obtain step where step: "step \<in> set (path_steps p)"
    and w: "w = (case step of (u, v) \<Rightarrow> (case wedge_weight ?g u v of None \<Rightarrow> 0 | Some w \<Rightarrow> w))"
    unfolding spec_step_weights_def set_map by blast
  obtain a b where ab: "step = (a, b)" by (cases step)
  from assms(1) step ab have "has_wedge ?g a b"
    unfolding is_walk_def by blast
  then have "wedge_weight ?g a b \<noteq> None"
    by (simp add: wedge_weight_None_iff)
  then obtain w' where w': "wedge_weight ?g a b = Some w'"
    by blast
  then obtain e where "(e, w') \<in> set ?g"
    using wedge_weight_in_graph by blast
  then have "m < w'" by (rule build_cooc_graph_weights)
  with w w' ab show "m < w" by simp
qed

lemma sum_list_nonneg_real: "(\<And>x. x \<in> set xs \<Longrightarrow> (0::real) \<le> x) \<Longrightarrow> 0 \<le> sum_list xs"
  by (induction xs) simp_all

text \<open>
  Claim C4, amended. Every path enumerated in the pruned co-occurrence graph is scored, and
  its score is 10 * (average weight of its edges) + 5 * (number of its steps that are links
  of the directed graph, in the direction walked) + 2 * (number of its steps whose target
  category is at an equal or later position of \<open>CATEGORY_ORDER\<close>) + 1 * (the number of
  distinct categories on it when that number is at least 3, else 0). The score is not
  negative when the minimum edge weight is not negative; with a negative minimum edge
  weight it can be negative.
\<close>

theorem trajectory_score_formula:
  assumes "all_simple_paths (build_cooc_graph M m) s t cutoff = Inr paths"
    and "p \<in> set paths"
  shows "\<exists>r. score_path (build_cooc_graph M m) G ni p = Inr (Some r) \<and> path_nodes r = p \<and>
           score r = spec_trajectory_score (build_cooc_graph M m) G ni p \<and>
           (0 \<le> m \<longrightarrow> 0 \<le> score r)"
proof -
  let ?g = "build_cooc_graph M m"
  from all_simple_paths_walk [OF assms] have walk: "is_walk ?g p" and len: "2 \<le> length p"
    by simp_all
  from score_path_walk [OF walk len, of G ni]
  obtain r where r: "score_path ?g G ni p = Inr (Some r)" "path_nodes r = p"
    "score r = spec_trajectory_score ?g G ni p"
    by blast
  have nonneg: "0 \<le> spec_trajectory_score ?g G ni p" if m: "0 \<le> m"
  proof -
    have "0 \<le> w" if "w \<in> set (spec_step_weights ?g p)" for w
      using walk_weights_above_threshold [OF walk that] m by simp
    then have "0 \<le> sum_list (spec_step_weights ?g p)" by (rule sum_list_nonneg_real)
    then have "0 \<le> spec_avg_cooccurrence ?g p"
      by (simp add: spec_avg_cooccurrence_def)
    then show ?thesis by (simp add: spec_trajectory_score_def)
  qed
  show ?thesis
  proof (intro exI conjI impI)
    show "score_path ?g G ni p = Inr (Some r)" by (rule r(1))
    show "path_nodes r = p" by (rule r(2))
    show "score r = spec_trajectory_score ?g G ni p" by (rule r(3))
    show "0 \<le> score r" if "0 \<le> m" using nonneg [OF that] r(3) by simp
  qed
qed

lemma simple_paths_from_4:
  "simple_paths_from g t 4 visited u =
     simple_paths_from g t (Suc (Suc (Suc (Suc 0)))) visited u"
proof -
  have "(4::nat) = Suc (Suc (Suc (Suc 0)))" by simp
  then show ?thesis by (simp only:)
qed

lemma ex_graph_eval:
  "build_cooc_graph ex_matrix (3 / 10) = [((''m1'', ''m2''), 1 / 2)]"
  by (simp add: build_cooc_graph_def ex_matrix_def add_wedge_def has_wedge_def)

theorem trajectory_score_formula_witness:
  "\<exists>r. score_path (build_cooc_graph ex_matrix (3 / 10)) ex_graph ex_registry [''m1'', ''m2'']
          = Inr (Some r) \<and> path_nodes r = [''m1'', ''m2''] \<and>
        score r = spec_trajectory_score (build_cooc_graph ex_matrix (3 / 10)) ex_graph ex_registry
                    [''m1'', ''m2''] \<and> 0 \<le> score r"
proof -
  have h: "all_simple_paths (build_cooc_graph ex_matrix (3 / 10)) ''m1'' ''m2'' 4
             = Inr [[''m1'', ''m2'']]"
    by (simp add: ex_graph_eval all_simple_paths_def has_wnode_def wneighbors_def simple_paths_from_4)
  have m: "[''m1'', ''m2''] \<in> set [[''m1'', ''m2'']]" by simp
  from trajectory_score_formula [OF h m, of ex_graph ex_registry]
  show ?thesis by simp
qed

text \<open>
  With minimum edge weight -1 the pair \<open>(alpha, m2)\<close> of correlation -0.5 is an edge of the
  pruned graph, and the path from the Application \<open>m2\<close> to the Theory \<open>alpha\<close> scores -5.
\<close>

theorem trajectory_score_negative_counterexample:
  "synthesize_and_plot_trajectory ex_graph2 ex_matrix_neg ex_registry2 ''m2'' ''alpha'' 4 (- 1) 20
     = Inr (Table_Saved
         [\<lparr>path_nodes = [''m2'', ''alpha''], score = - 5, path_str = ''m2 -> alpha'',
           path_length = 2, avg_cooc_score = - (1 / 2), num_explicit_links = 0,
           hierarchical_flow_score = 0, category_span_score = 0\<rparr>]
         [''m2'', ''alpha''])"
proof -
  have g: "build_cooc_graph ex_matrix_neg (- 1) = [((''alpha'', ''m2''), - (1 / 2))]"
    by (simp add: build_cooc_graph_def ex_matrix_neg_def add_wedge_def has_wedge_def)
  have paths: "all_simple_paths [((''alpha'', ''m2''), - (1 / 2))] ''m2'' ''alpha'' 4
      = Inr [[''m2'', ''alpha'']]"
    by (simp add: all_simple_paths_def has_wnode_def wneighbors_def simple_paths_from_4)
  have sc: "score_path [((''alpha'', ''m2''), - (1 / 2))] ex_graph2 ex_registry2 [''m2'', ''alpha'']
      = Inr (Some \<lparr>path_nodes = [''m2'', ''alpha''], score = - 5, path_str = ''m2 -> alpha'',
           path_length = 2, avg_cooc_score = - (1 / 2), num_explicit_links = 0,
           hierarchical_flow_score = 0, category_span_score = 0\<rparr>)"
    by (simp add: score_path_def initial_scan_state_def wedge_weight_def get_category_def
        ex_registry2_def ex_graph2_def has_edge_def hierarchical_step_def CATEGORY_ORDER_def
        np_mean_def round3_def Let_def)
  have guard: "has_node ex_graph2 ''m2''" "has_node ex_graph2 ''alpha''"
    "''m2'' \<in> fst ` set ex_registry2" "''alpha'' \<in> fst ` set ex_registry2"
    by (simp_all add: has_node_def ex_graph2_def ex_registry2_def)
  have nodes: "has_wnode [((''alpha'', ''m2''), - (1 / 2))] ''m2''"
    "has_wnode [((''alpha'', ''m2''), - (1 / 2))] ''alpha''"
    by (simp_all add: has_wnode_def)
  show ?thesis
    unfolding synthesize_and_plot_trajectory_def g
    by (simp add: guard nodes paths sc Let_def sort_paths_def df_head_def)
qed







subsection \<open>Empty inputs\<close>

text \<open>
  Claim C8. On an empty directed graph the centrality and community stage returns the graph
  as it is with the skipped signal, whatever the library functions would do, and the gap
  scorer returns \<open>None\<close>; on an empty co-occurrence matrix the gap scorer returns \<open>None\<close>.
  Neither raises.
\<close>

theorem empty_inputs_skip_stages:
  "(number_of_nodes G = 0 \<longrightarrow>
      analyze_centrality_and_communities nx_pagerank best_partition G = Inr (Skipped, G) \<and>
      analyze_probabilistic_knowledge_gaps G M ni = Inr None) \<and>
   (df_empty M \<longrightarrow> analyze_probabilistic_knowledge_gaps G M ni = Inr None)"
  by (simp add: analyze_centrality_and_communities_def analyze_probabilistic_knowledge_gaps_def)

theorem empty_inputs_skip_stages_witness:
  "analyze_centrality_and_communities (\<lambda>G. Inl PowerIterationFailedConvergence)
      (\<lambda>G seed. Map.empty) empty_digraph = Inr (Skipped, empty_digraph) \<and>
   analyze_probabilistic_knowledge_gaps empty_digraph ex_matrix ex_registry = Inr None \<and>
   analyze_probabilistic_knowledge_gaps ex_graph ex_empty_matrix ex_registry = Inr None"
proof -
  have e: "number_of_nodes empty_digraph = 0"
    by (simp add: number_of_nodes_def empty_digraph_def)
  have m: "df_empty ex_empty_matrix"
    by (simp add: df_empty_def ex_empty_matrix_def)
  from empty_inputs_skip_stages
    [of empty_digraph "\<lambda>G. Inl PowerIterationFailedConvergence" "\<lambda>G seed. Map.empty"
        ex_matrix ex_registry]
    empty_inputs_skip_stages
    [of ex_graph "\<lambda>G. Inl PowerIterationFailedConvergence" "\<lambda>G seed. Map.empty"
        ex_empty_matrix ex_registry]
  show ?thesis using e m by simp
qed

subsection \<open>The metadata extractor\<close>

lemma map_of_skip_known:
  assumes "h \<in> fst ` set ni"
  shows "map_of (ni @ (h, d) # rest) = map_of (ni @ rest)"
proof
  fix k
  show "map_of (ni @ (h, d) # rest) k = map_of (ni @ rest) k"
  proof (cases "map_of ni k")
    case None
    then have "k \<noteq> h" using assms by (auto simp: map_of_eq_None_iff)
    with None show ?thesis by (simp add: map_add_def)
  next
    case (Some a)
    then show ?thesis by (simp add: map_add_def)
  qed
qed

lemma add_headers_map_of:
  "map_of (add_headers d hs ni) = map_of (ni @ map (\<lambda>h. (h, d)) hs)"
proof (induction hs arbitrary: ni)
  case Nil
  then show ?case by simp
next
  case (Cons h hs)
  show ?case
  proof (cases "h \<in> fst ` set ni")
    case True
    then show ?thesis
      using Cons.IH [of ni] map_of_skip_known [OF True, of d "map (\<lambda>h. (h, d)) hs"] by simp
  next
    case False
    then show ?thesis
      using Cons.IH [of "ni @ [(h, d)]"] by simp
  qed
qed

lemma add_headers_distinct:
  "distinct (map fst ni) \<Longrightarrow> distinct (map fst (add_headers d hs ni))"
  by (induction hs arbitrary: ni) auto

lemma get_node_metadata_from_Inr:
  assumes "get_node_metadata_from fs files ni = Inr ni'"
  shows "map_of ni' = map_of (ni @ spec_definitions fs files) \<and>
         (distinct (map fst ni) \<longrightarrow> distinct (map fst ni'))"
  using assms
proof (induction files arbitrary: ni)
  case Nil
  then show ?case by (simp add: spec_definitions_def)
next
  case (Cons f files)
  show ?case
  proof (cases "map_of NODE_CATEGORIES f")
    case None
    with Cons show ?thesis by (simp add: spec_definitions_def)
  next
    case (Some cc)
    obtain cat col where cc: "cc = (cat, col)" by (cases cc)
    from Cons.prems Some cc obtain content where content: "fs f = Some content"
      and rec: "get_node_metadata_from fs files
                 (add_headers \<lparr>category = cat, color = col\<rparr> (findall_headers content) ni) = Inr ni'"
      by (cases "fs f") simp_all
    let ?d = "\<lparr>category = cat, color = col\<rparr>"
    let ?ni1 = "add_headers ?d (findall_headers content) ni"
    from Cons.IH [OF rec]
    have 1: "map_of ni' = map_of (?ni1 @ spec_definitions fs files)"
      and 2: "distinct (map fst ?ni1) \<longrightarrow> distinct (map fst ni')"
      by simp_all
    have "map_of (?ni1 @ spec_definitions fs files)
          = map_of ((ni @ map (\<lambda>h. (h, ?d)) (findall_headers content)) @ spec_definitions fs files)"
      by (simp only: map_of_append add_headers_map_of)
    also have "\<dots> = map_of (ni @ spec_definitions fs (f # files))"
      by (simp add: spec_definitions_def Some cc content)
    finally have "map_of ni' = map_of (ni @ spec_definitions fs (f # files))"
      using 1 by simp
    moreover have "distinct (map fst ni) \<longrightarrow> distinct (map fst ni')"
      using 2 add_headers_distinct by blast
    ultimately show ?thesis by blast
  qed
qed

lemma get_node_metadata_from_total:
  assumes "\<And>f. f \<in> set files \<Longrightarrow> f \<in> dom (map_of NODE_CATEGORIES) \<Longrightarrow> fs f \<noteq> None"
  shows "\<exists>ni'. get_node_metadata_from fs files ni = Inr ni'"
  using assms
proof (induction files arbitrary: ni)
  case Nil
  then show ?case by simp
next
  case (Cons f files)
  show ?case
  proof (cases "map_of NODE_CATEGORIES f")
    case None
    then show ?thesis using Cons by simp
  next
    case (Some cc)
    then have "fs f \<noteq> None" using Cons.prems [of f] by auto
    then obtain content where "fs f = Some content" by blast
    then show ?thesis using Some Cons by (cases cc) simp
  qed
qed

lemma map_of_first_occurrence:
  "xs = pre @ (k, v) # post \<Longrightarrow> k \<notin> fst ` set pre \<Longrightarrow> map_of xs k = Some v"
proof -
  assume xs: "xs = pre @ (k, v) # post" and k: "k \<notin> fst ` set pre"
  from k have "map_of pre k = None" by (simp add: map_of_eq_None_iff)
  then show ?thesis by (simp add: xs map_add_def)
qed

text \<open>
  Claim C9. When every categorised file can be read, the extractor returns a registry and
  raises nothing, whatever ids are defined more than once. Its keys are distinct and are
  the ids defined somewhere, and for every id the first defining header in processing order
  (files in the order given, headers in document order) fixes its category and colour:
  every later definition of the id is ignored.
\<close>

theorem first_definition_wins:
  assumes "\<forall>f\<in>set files. f \<in> dom (map_of NODE_CATEGORIES) \<longrightarrow> fs f \<noteq> None"
  shows "\<exists>ni. get_node_metadata fs files = Inr ni \<and> distinct (map fst ni) \<and>
           fst ` set ni = fst ` set (spec_definitions fs files) \<and>
           (\<forall>pre h d post. spec_definitions fs files = pre @ (h, d) # post \<and> h \<notin> fst ` set pre
               \<longrightarrow> map_of ni h = Some d)"
proof -
  from get_node_metadata_from_total [of files fs "[]"] assms
  obtain ni where ni: "get_node_metadata_from fs files [] = Inr ni" by blast
  from get_node_metadata_from_Inr [OF ni]
  have m: "map_of ni = map_of (spec_definitions fs files)" and d: "distinct (map fst ni)"
    by simp_all
  have keys: "fst ` set ni = fst ` set (spec_definitions fs files)"
    using m by (metis dom_map_of_conv_image_fst)
  have first: "map_of ni h = Some d"
    if "spec_definitions fs files = pre @ (h, d) # post \<and> h \<notin> fst ` set pre" for pre h d post
    using that m map_of_first_occurrence [of "spec_definitions fs files" pre h d post] by simp
  show ?thesis
    unfolding get_node_metadata_def using ni d keys first by blast
qed

text \<open>The scanners evaluated on the example corpus.\<close>

lemma findall_loop_numeral:
  "findall_loop m (numeral n) (c # cs) = findall_loop m (pred_numeral n) cs"
  by (simp add: numeral_eq_Suc)

lemma split_loop_numeral:
  "split_loop (numeral n) piece (c # cs) = split_loop (pred_numeral n) piece cs"
  by (simp add: numeral_eq_Suc)

lemma ex_headers:
  "findall_headers ''### alpha links to [[./applications.md#beta]] twice [[./applications.md#beta]] and to [[./applications.md#gamma]] ### beta is here too'' = [''alpha'', ''beta'']"
  "findall_headers ''### beta ### alpha'' = [''beta'', ''alpha'']"
  by (simp_all add: findall_headers_def match_header_def is_space_def is_id_char_def Let_def
      findall_loop_numeral)

lemma ex_definitions:
  "spec_definitions ex_fs ex_files =
     [(''alpha'', \<lparr>category = Theory, color = ''#a65628''\<rparr>),
      (''beta'', \<lparr>category = Theory, color = ''#a65628''\<rparr>),
      (''beta'', \<lparr>category = Application, color = ''#e41a1c''\<rparr>),
      (''alpha'', \<lparr>category = Application, color = ''#e41a1c''\<rparr>)]"
  by (simp add: spec_definitions_def ex_fs_def ex_files_def NODE_CATEGORIES_def ex_headers)

text \<open>
  Both documents define \<open>alpha\<close> and \<open>beta\<close>; the Theory document is read first
  and gives both their category.
\<close>

theorem first_definition_wins_witness:
  "\<exists>ni. get_node_metadata ex_fs ex_files = Inr ni \<and>
      map_of ni ''alpha'' = Some \<lparr>category = Theory, color = ''#a65628''\<rparr> \<and>
      map_of ni ''beta'' = Some \<lparr>category = Theory, color = ''#a65628''\<rparr>"
proof -
  have readable: "\<forall>f\<in>set ex_files. f \<in> dom (map_of NODE_CATEGORIES) \<longrightarrow> ex_fs f \<noteq> None"
    by (simp add: ex_files_def ex_fs_def NODE_CATEGORIES_def dom_def)
  have a: "spec_definitions ex_fs ex_files =
      [] @ (''alpha'', \<lparr>category = Theory, color = ''#a65628''\<rparr>) #
        [(''beta'', \<lparr>category = Theory, color = ''#a65628''\<rparr>),
         (''beta'', \<lparr>category = Application, color = ''#e41a1c''\<rparr>),
         (''alpha'', \<lparr>category = Application, color = ''#e41a1c''\<rparr>)] \<and>
      ''alpha'' \<notin> fst ` set []"
    by (simp add: ex_definitions)
  have b: "spec_definitions ex_fs ex_files =
      [(''alpha'', \<lparr>category = Theory, color = ''#a65628''\<rparr>)] @
        (''beta'', \<lparr>category = Theory, color = ''#a65628''\<rparr>) #
        [(''beta'', \<lparr>category = Application, color = ''#e41a1c''\<rparr>),
         (''alpha'', \<lparr>category = Application, color = ''#e41a1c''\<rparr>)] \<and>
      ''beta'' \<notin> fst ` set [(''alpha'', \<lparr>category = Theory, color = ''#a65628''\<rparr>)]"
    by (simp add: ex_definitions)
  obtain ni where all: "get_node_metadata ex_fs ex_files = Inr ni \<and> distinct (map fst ni) \<and>
           fst ` set ni = fst ` set (spec_definitions ex_fs ex_files) \<and>
           (\<forall>pre h d post. spec_definitions ex_fs ex_files = pre @ (h, d) # post \<and> h \<notin> fst ` set pre
               \<longrightarrow> map_of ni h = Some d)"
    using first_definition_wins [OF readable] ..
  note ni = all [THEN conjunct1]
  note first = all [THEN conjunct2, THEN conjunct2, THEN conjunct2]
  have "map_of ni ''alpha'' = Some \<lparr>category = Theory, color = ''#a65628''\<rparr>"
    by (rule first [rule_format, OF a])
  moreover
  have "map_of ni ''beta'' = Some \<lparr>category = Theory, color = ''#a65628''\<rparr>"
    by (rule first [rule_format, OF b])
  ultimately show ?thesis using ni by (intro exI conjI)
qed

subsection \<open>The link graph builder\<close>

lemma add_edge_within:
  assumes "graph_within K G" "has_node G u" "has_node G v"
  shows "graph_within K (add_edge G u v)"
  using assms
  by (auto simp: graph_within_def add_edge_def add_bare_node_def has_node_def Let_def)

lemma has_node_within: "graph_within K G \<Longrightarrow> has_node G n \<longleftrightarrow> n \<in> K"
  by (auto simp: graph_within_def has_node_def)

lemma fold_links_within:
  assumes "graph_within K G" "s \<in> K"
  shows "graph_within K (fold (\<lambda>(f, target_node) G. if has_node G target_node
                                          then add_edge G s target_node else G) links G)"
  using assms
proof (induction links arbitrary: G)
  case Nil
  then show ?case by simp
next
  case (Cons l links)
  obtain f t where l: "l = (f, t)" by (cases l)
  have "graph_within K (if has_node G t then add_edge G s t else G)"
    using Cons.prems add_edge_within [of K G s t] by (simp add: has_node_within)
  from Cons.IH [OF this Cons.prems(2)] show ?case by (simp add: l)
qed

lemma add_section_links_within:
  "graph_within K G \<Longrightarrow> graph_within K (add_section_links G s section)"
proof -
  assume w: "graph_within K G"
  show ?thesis
  proof (cases "has_node G s")
    case True
    then have "s \<in> K" using w by (simp add: has_node_within)
    from fold_links_within [OF w this] True show ?thesis
      by (simp add: add_section_links_def)
  next
    case False
    then show ?thesis using w by (simp add: add_section_links_def)
  qed
qed

lemma fold_sections_within:
  "graph_within K G \<Longrightarrow>
   graph_within K (fold (\<lambda>(source_node, section) G. add_section_links G source_node section) ps G)"
proof (induction ps arbitrary: G)
  case Nil
  then show ?case by simp
next
  case (Cons p ps)
  obtain s sec where p: "p = (s, sec)" by (cases p)
  from Cons.IH [OF add_section_links_within [OF Cons.prems, of s sec]]
  show ?case by (simp add: p)
qed

lemma add_file_links_within:
  "graph_within K G \<Longrightarrow> graph_within K (add_file_links G content)"
  unfolding add_file_links_def Let_def by (rule fold_sections_within)

lemma build_links_from_within:
  "graph_within K G \<Longrightarrow> build_links_from fs files G = Inr G' \<Longrightarrow> graph_within K G'"
proof (induction files arbitrary: G)
  case Nil
  then show ?case by simp
next
  case (Cons f files)
  show ?case
  proof (cases "map_of NODE_CATEGORIES f")
    case None
    with Cons show ?thesis by simp
  next
    case (Some cc)
    with Cons.prems obtain content where "fs f = Some content"
      and "build_links_from fs files (add_file_links G content) = Inr G'"
      by (cases "fs f") simp_all
    with Cons.IH [OF add_file_links_within [OF Cons.prems(1)]] show ?thesis by blast
  qed
qed

lemma fold_add_node_within:
  "graph_within K G \<Longrightarrow>
   graph_within (K \<union> fst ` set ni) (fold (\<lambda>(node, data) G. add_node G node data) ni G)"
proof (induction ni arbitrary: K G)
  case Nil
  then show ?case by simp
next
  case (Cons p ni)
  obtain n d where p: "p = (n, d)" by (cases p)
  have "graph_within (insert n K) (add_node G n d)"
    using Cons.prems by (auto simp: graph_within_def add_node_def)
  from Cons.IH [OF this] show ?case by (simp add: p)
qed

text \<open>
  Claim C6, amended. The node set of the link graph is the set of registry keys, each node
  once; both ends of every edge are registry keys, so a reference to an id outside the
  registry adds nothing; and no edge occurs twice. Self-loops are not excluded, so the graph
  need not be simple.
\<close>

theorem link_graph_nodes_and_edges:
  assumes "build_explicit_link_graph fs files ni = Inr G"
  shows "set (nodes G) = fst ` set ni \<and> distinct (nodes G) \<and>
         (\<forall>(u, v)\<in>set (edges G). u \<in> fst ` set ni \<and> v \<in> fst ` set ni) \<and>
         distinct (edges G)"
proof -
  have "graph_within {} empty_digraph"
    by (simp add: graph_within_def empty_digraph_def)
  from fold_add_node_within [OF this, of ni]
  have "graph_within (fst ` set ni)
          (fold (\<lambda>(node, data) G. add_node G node data) ni empty_digraph)"
    by simp
  from build_links_from_within [OF this assms [unfolded build_explicit_link_graph_def]]
  show ?thesis by (auto simp: graph_within_def)
qed

lemma ex_corpus_graph:
  "\<exists>G. build_explicit_link_graph ex_fs ex_files ex_corpus_registry = Inr G \<and>
       edges G = [(''alpha'', ''beta'')]"
  by (simp add: build_explicit_link_graph_def ex_fs_def ex_files_def ex_corpus_registry_def
      NODE_CATEGORIES_def add_file_links_def add_section_links_def split_sections_def
      findall_headers_def findall_links_def match_header_def match_separator_def match_link_def
      is_space_def is_id_char_def is_file_char_def findall_loop_numeral split_loop_numeral
      add_node_def add_edge_def add_bare_node_def has_node_def empty_digraph_def Let_def)

theorem link_graph_nodes_and_edges_witness:
  "\<exists>G. build_explicit_link_graph ex_fs ex_files ex_corpus_registry = Inr G \<and>
       set (nodes G) = {''alpha'', ''beta''} \<and> edges G = [(''alpha'', ''beta'')] \<and>
       distinct (edges G)"
proof -
  from ex_corpus_graph obtain G
    where G: "build_explicit_link_graph ex_fs ex_files ex_corpus_registry = Inr G"
      and e: "edges G = [(''alpha'', ''beta'')]"
    by (elim exE conjE)
  from link_graph_nodes_and_edges [OF G]
  have "set (nodes G) = fst ` set ex_corpus_registry" and "distinct (edges G)"
    by simp_all
  then have "set (nodes G) = {''alpha'', ''beta''}" "distinct (edges G)"
    by (simp_all add: ex_corpus_registry_def)
  with G e show ?thesis by (intro exI conjI)
qed

text \<open>
  One Theory document whose only section, owned by \<open>alpha\<close>, refers to \<open>alpha\<close>: the
  graph built has the edge from \<open>alpha\<close> to itself.
\<close>

theorem link_graph_self_loop_counterexample:
  "map_sum id edges (build_explicit_link_graph ex_loop_fs [''theoretical.md''] ex_loop_registry)
     = Inr [(''alpha'', ''alpha'')]"
  by (simp add: build_explicit_link_graph_def ex_loop_fs_def ex_loop_registry_def
      NODE_CATEGORIES_def add_file_links_def add_section_links_def split_sections_def
      findall_headers_def findall_links_def match_header_def match_separator_def match_link_def
      is_space_def is_id_char_def is_file_char_def findall_loop_numeral split_loop_numeral
      add_node_def add_edge_def add_bare_node_def has_node_def empty_digraph_def Let_def)

subsection \<open>The co-occurrence builder\<close>

lemma sum_products_commute:
  "sum_list (map (\<lambda>(a, b). a * b) (zip xs ys)) =
   sum_list (map (\<lambda>(a, b). a * b) (zip ys (xs :: real list)))"
proof (induction xs arbitrary: ys)
  case Nil
  then show ?case by simp
next
  case (Cons x xs)
  then show ?case by (cases ys) (simp_all add: mult.commute)
qed

lemma spearman_commute:
  assumes "length xs = length ys"
  shows "spearman xs ys = spearman ys xs"
  unfolding spearman_def Let_def assms
  by (simp only: sum_products_commute [of "map (\<lambda>x. average_rank xs x - (real (length ys) + 1) / 2) xs"]
      mult.commute [of "sum_list (map (\<lambda>a. a * a) (map (\<lambda>x. average_rank xs x - (real (length ys) + 1) / 2) xs))"])

lemma length_abundance_row:
  "length (abundance_row dl u) = length (abundance_row dl v)"
  by (simp add: abundance_row_def)

lemma sum_abundance_row:
  "sum_list (abundance_row dl c) = spec_total_references dl c"
proof -
  have "distinct (doc_columns dl)" "set (doc_columns dl) = set (map fst dl)"
    by (simp_all add: doc_columns_def)
  then show ?thesis
    unfolding abundance_row_def spec_total_references_def
    using sum_list_distinct_conv_sum_set [of "doc_columns dl" "abundance dl c"] by simp
qed

text \<open>
  Claim C5. The matrix the co-occurrence builder returns is symmetric, its rows and columns
  carry the same labels, these labels are exactly the registry concepts whose total
  reference count over the documents is not zero, and an entry whose correlation is
  undefined is 0.
\<close>

theorem cooccurrence_matrix_symmetric:
  assumes "build_cooccurrence_data fs files ni = Inr M"
  shows "loc M u v = loc M v u \<and> m_columns M = m_index M \<and>
         (\<exists>doc_links. read_doc_links fs files = Inr doc_links \<and>
            set (m_index M) = {c \<in> fst ` set ni. spec_total_references doc_links c \<noteq> 0} \<and>
            (spearman (abundance_row doc_links u) (abundance_row doc_links v) = None
               \<longrightarrow> loc M u v = 0))"
proof -
  from assms obtain dl where dl: "read_doc_links fs files = Inr dl"
    by (cases "read_doc_links fs files") (simp_all add: build_cooccurrence_data_def)
  define retained where
    "retained = filter (\<lambda>concept. 0 < sum_list (abundance_row dl concept)) (sort (map fst ni))"
  from assms dl have M: "M = \<lparr>m_index = retained, m_columns = retained,
      loc = (\<lambda>u v. fillna0 (spearman (abundance_row dl u) (abundance_row dl v)))\<rparr>"
    by (simp add: build_cooccurrence_data_def Let_def retained_def)
  have sym: "loc M u v = loc M v u"
    by (simp add: M spearman_commute [OF length_abundance_row [of dl u v]])
  have cols: "m_columns M = m_index M" by (simp add: M)
  have idx: "set (m_index M) = {c \<in> fst ` set ni. spec_total_references dl c \<noteq> 0}"
    by (auto simp: M retained_def sum_abundance_row)
  have nan: "spearman (abundance_row dl u) (abundance_row dl v) = None \<longrightarrow> loc M u v = 0"
    by (simp add: M fillna0_def)
  show ?thesis
  proof (intro conjI exI)
    show "loc M u v = loc M v u" by (rule sym)
    show "m_columns M = m_index M" by (rule cols)
    show "read_doc_links fs files = Inr dl" by (rule dl)
    show "set (m_index M) = {c \<in> fst ` set ni. spec_total_references dl c \<noteq> 0}" by (rule idx)
    show "spearman (abundance_row dl u) (abundance_row dl v) = None \<longrightarrow> loc M u v = 0"
      by (rule nan)
  qed
qed

text \<open>
  A corpus of two documents: \<open>alpha\<close> is referred to once in each (a constant row, whose
  correlation with any row is undefined), \<open>beta\<close> twice in the Theory document only,
  \<open>gamma\<close> once in the Application document only. All three are retained; the entries
  of \<open>beta\<close> and \<open>gamma\<close> are -1 both ways, those of \<open>alpha\<close> and \<open>beta\<close> are 0 both ways.
\<close>

lemma ex2_registry: "get_node_metadata ex_fs2 ex_files2 = Inr ex_registry3"
  by (simp add: get_node_metadata_def ex_fs2_def ex_files2_def ex_registry3_def NODE_CATEGORIES_def
      findall_headers_def match_header_def is_space_def is_id_char_def findall_loop_numeral Let_def)

lemma ex2_doc_links:
  "read_doc_links ex_fs2 ex_files2 =
     Inr [(''theoretical.md'', [''beta'', ''beta'', ''alpha'']),
          (''applications.md'', [''alpha'', ''gamma''])]"
  by (simp add: ex_fs2_def ex_files2_def NODE_CATEGORIES_def findall_links_def match_link_def
      is_id_char_def is_file_char_def findall_loop_numeral Let_def)

lemma ex2_doc_columns:
  "doc_columns [(''theoretical.md'', [''beta'', ''beta'', ''alpha'']),
                (''applications.md'', [''alpha'', ''gamma''])]
     = [''applications.md'', ''theoretical.md'']"
  by (simp add: doc_columns_def less_eq_char_def less_char_def)

lemma ex2_rows:
  "abundance_row [(''theoretical.md'', [''beta'', ''beta'', ''alpha'']),
                  (''applications.md'', [''alpha'', ''gamma''])] ''alpha'' = [1, 1]"
  "abundance_row [(''theoretical.md'', [''beta'', ''beta'', ''alpha'']),
                  (''applications.md'', [''alpha'', ''gamma''])] ''beta'' = [0, 2]"
  "abundance_row [(''theoretical.md'', [''beta'', ''beta'', ''alpha'']),
                  (''applications.md'', [''alpha'', ''gamma''])] ''gamma'' = [1, 0]"
  by (simp_all add: abundance_row_def ex2_doc_columns abundance_def)

lemma sqrt_quarter: "sqrt (1 / 4) = 1 / 2"
  by (rule real_sqrt_unique) (simp_all add: power2_eq_square)

lemma ex2_spearman:
  "spearman [1, 1] [0, 2] = None"
  "spearman [0, 2] [1, 0] = Some (- 1)"
  by (simp_all add: spearman_def average_rank_def Let_def sqrt_quarter)

lemma ex2_sorted_index: "sort (map fst ex_registry3) = [''alpha'', ''beta'', ''gamma'']"
  by (simp add: ex_registry3_def less_eq_char_def less_char_def)

theorem cooccurrence_matrix_symmetric_witness:
  "\<exists>M. build_cooccurrence_data ex_fs2 ex_files2 ex_registry3 = Inr M \<and>
       m_index M = [''alpha'', ''beta'', ''gamma''] \<and>
       m_columns M = [''alpha'', ''beta'', ''gamma''] \<and>
       loc M ''beta'' ''gamma'' = loc M ''gamma'' ''beta'' \<and> loc M ''beta'' ''gamma'' = - 1 \<and>
       loc M ''alpha'' ''beta'' = loc M ''beta'' ''alpha'' \<and> loc M ''alpha'' ''beta'' = 0"
proof -
  let ?dl = "[(''theoretical.md'', [''beta'', ''beta'', ''alpha'']),
              (''applications.md'', [''alpha'', ''gamma''])]"
  define M where "M = \<lparr>m_index = [''alpha'', ''beta'', ''gamma''],
      m_columns = [''alpha'', ''beta'', ''gamma''],
      loc = (\<lambda>u v. fillna0 (spearman (abundance_row ?dl u) (abundance_row ?dl v)))\<rparr>"
  have build: "build_cooccurrence_data ex_fs2 ex_files2 ex_registry3 = Inr M"
    by (simp add: build_cooccurrence_data_def ex2_doc_links ex2_sorted_index ex2_rows M_def Let_def)
  from cooccurrence_matrix_symmetric [OF build, of "''beta''" "''gamma''"]
  have sym1: "loc M ''beta'' ''gamma'' = loc M ''gamma'' ''beta''"
    by (rule conjunct1)
  from cooccurrence_matrix_symmetric [OF build, of "''alpha''" "''beta''"]
  obtain dl where sym2: "loc M ''alpha'' ''beta'' = loc M ''beta'' ''alpha''"
    and cols: "m_columns M = m_index M"
    and dl: "read_doc_links ex_fs2 ex_files2 = Inr dl"
    and nan: "spearman (abundance_row dl ''alpha'') (abundance_row dl ''beta'') = None
               \<longrightarrow> loc M ''alpha'' ''beta'' = 0"
    by (elim conjE exE)
  from dl have dl_eq: "dl = ?dl" by (simp add: ex2_doc_links)
  have undefined_corr: "spearman (abundance_row ?dl ''alpha'') (abundance_row ?dl ''beta'') = None"
    by (simp only: ex2_rows ex2_spearman)
  have zero: "loc M ''alpha'' ''beta'' = 0"
    by (rule mp [OF nan [unfolded dl_eq] undefined_corr])
  have defined_corr:
    "spearman (abundance_row ?dl ''beta'') (abundance_row ?dl ''gamma'') = Some (- 1)"
    by (simp only: ex2_rows ex2_spearman)
  have val: "loc M ''beta'' ''gamma'' = - 1"
    by (simp add: M_def defined_corr fillna0_def)
  have idx: "m_index M = [''alpha'', ''beta'', ''gamma'']" by (simp add: M_def)
  show ?thesis
    using build idx cols sym1 val sym2 zero by (intro exI conjI) simp_all
qed

end
